theory Spec2Isabelle
  imports Main "HOL-Library.List_Lexorder" "HOL-Library.Char_ord" "HOL-Library.Sublist"
begin

section \<open>Declaration entries and build context\<close>

text \<open>
  A shallow embedding of \<^verbatim>\<open>packages/wxt/src/core/generate-wxt-dir.ts\<close>.
  A JavaScript string is a \<^typ>\<open>string\<close>: a list of code units, ordered (for
  \<^verbatim>\<open>Array.prototype.sort\<close> without a comparator) lexicographically by code unit, a proper
  prefix first. Only code units below 256 are represented.
\<close>

record WxtDirFileEntry =
  path :: string
  "text" :: string
  tsReference :: "bool option"

text \<open>
  \<^verbatim>\<open>WxtDirEntry\<close> is the union of \<^verbatim>\<open>{ module: string }\<close> and \<^verbatim>\<open>WxtDirFileEntry\<close>; the
  code tells them apart with \<^verbatim>\<open>'module' in ref\<close> and \<^verbatim>\<open>'path' in entry\<close>. The optional
  \<^verbatim>\<open>tsReference\<close> is \<^term>\<open>None\<close> when the property is absent.
\<close>

datatype WxtDirEntry = ModuleEntry (module: string) | FileEntry WxtDirFileEntry

datatype error = SyntaxError | FilesystemError | HookError

record WxtModule =
  module_type :: string
  module_id :: string

record Message =
  name :: string
  message :: "string option"
  description :: "string option"

record Global =
  global_name :: string
  global_type :: string

record config =
  typesDir :: string
  wxtDir :: string
  outDir :: string
  publicDir :: string
  root :: string
  outBaseDir :: string
  default_locale :: "string option"
  userModules :: "WxtModule list"
  extensionApi :: string
  "alias" :: "(string \<times> string) list"

text \<open>
  The process-wide \<^verbatim>\<open>wxt\<close> object, together with everything the file imports and does not
  define: \<^typ>\<open>'ep\<close> is the type of an entrypoint and \<^typ>\<open>'json\<close> that of a parsed JSON
  value. \<^verbatim>\<open>resolve\<close>, \<^verbatim>\<open>relative\<close> and \<^verbatim>\<open>dirname\<close> are those of \<^verbatim>\<open>node:path\<close>, the first
  one with the list of its arguments; \<^verbatim>\<open>default_locale\<close> is
  \<^verbatim>\<open>wxt.config.manifest.default_locale\<close>; \<^verbatim>\<open>alias\<close> is \<^verbatim>\<open>Object.entries(wxt.config.alias)\<close>;
  \<^verbatim>\<open>getPublicFiles\<close> is the outcome of the awaited call; a hook receives the array it is
  called with and returns the array as it left it, or throws. Hooks and helpers are taken to
  perform no file writes of their own.
\<close>

record ('ep, 'json) Wxt =
  config :: config
  resolve :: "string list \<Rightarrow> string"
  relative :: "string \<Rightarrow> string \<Rightarrow> string"
  dirname :: "string \<Rightarrow> string"
  normalizePath :: "string \<Rightarrow> string"
  getEntrypointBundlePath :: "'ep \<Rightarrow> string \<Rightarrow> string \<Rightarrow> string"
  isHtmlEntrypoint :: "'ep \<Rightarrow> bool"
  getPublicFiles :: "error + string list"
  getGlobals :: "config \<Rightarrow> Global list"
  getEntrypointGlobals :: "string \<Rightarrow> Global list"
  JSON_parse :: "string \<Rightarrow> error + 'json"
  empty_object :: "'json"
  parseI18nMessages :: "'json \<Rightarrow> Message list"
  hook_prepare_publicPaths :: "string list \<Rightarrow> error + string list"
  hook_prepare_types :: "WxtDirEntry list \<Rightarrow> error + WxtDirEntry list"

section \<open>JavaScript string operations\<close>

fun js_join :: "string \<Rightarrow> string list \<Rightarrow> string" where
  "js_join sep [] = []"
| "js_join sep [x] = x"
| "js_join sep (x # y # ys) = x @ sep @ js_join sep (y # ys)"

fun js_split :: "char \<Rightarrow> string \<Rightarrow> string list" where
  "js_split c [] = [[]]"
| "js_split c (x # xs) =
     (let r = js_split c xs in if x = c then [] # r else (x # hd r) # tl r)"

definition js_startsWith :: "string \<Rightarrow> string \<Rightarrow> bool" where
  "js_startsWith s p = (take (length p) s = p)"

definition js_whitespace :: "char \<Rightarrow> bool" where
  "js_whitespace c = (c \<in> {CHR 0x09, CHR 0x0A, CHR 0x0B, CHR 0x0C, CHR 0x0D, CHR 0x20, CHR 0xA0})"

definition js_trimEnd :: "string \<Rightarrow> string" where
  "js_trimEnd s = rev (dropWhile js_whitespace (rev s))"

text \<open>
  \<^verbatim>\<open>String.prototype.replace\<close> with a string pattern: only the first occurrence is
  replaced, and the replacement string is expanded by \<^verbatim>\<open>GetSubstitution\<close>. There are no
  captures, so the patterns with a meaning are \<^verbatim>\<open>$$\<close>, \<^verbatim>\<open>$&\<close>, \<^verbatim>\<open>$`\<close> and \<^verbatim>\<open>$'\<close>;
  every other \<^verbatim>\<open>$\<close> stands for itself.
\<close>

fun split_at_first :: "string \<Rightarrow> string \<Rightarrow> (string \<times> string) option" where
  "split_at_first pat [] = (if pat = [] then Some ([], []) else None)"
| "split_at_first pat (c # cs) =
     (if js_startsWith (c # cs) pat then Some ([], drop (length pat) (c # cs))
      else (case split_at_first pat cs of
              None \<Rightarrow> None
            | Some (preceding, following) \<Rightarrow> Some (c # preceding, following)))"

fun GetSubstitution :: "string \<Rightarrow> string \<Rightarrow> string \<Rightarrow> string \<Rightarrow> string" where
  "GetSubstitution matched preceding following [] = []"
| "GetSubstitution matched preceding following [c] = [c]"
| "GetSubstitution matched preceding following (c # c' # r) =
     (if c = CHR ''$'' \<and> c' = CHR ''$'' then CHR ''$'' # GetSubstitution matched preceding following r
      else if c = CHR ''$'' \<and> c' = CHR ''&'' then matched @ GetSubstitution matched preceding following r
      else if c = CHR ''$'' \<and> c' = CHR 0x60 then preceding @ GetSubstitution matched preceding following r
      else if c = CHR ''$'' \<and> c' = CHR 0x27 then following @ GetSubstitution matched preceding following r
      else c # GetSubstitution matched preceding following (c' # r))"

definition js_replace :: "string \<Rightarrow> string \<Rightarrow> string \<Rightarrow> string" where
  "js_replace s pat replacement =
     (case split_at_first pat s of
        None \<Rightarrow> s
      | Some (preceding, following) \<Rightarrow> preceding @ GetSubstitution pat preceding following replacement @ following)"

text \<open>JavaScript truthiness of an optional string: defined and not empty.\<close>

definition truthy :: "string option \<Rightarrow> bool" where
  "truthy s = (case s of None \<Rightarrow> False | Some v \<Rightarrow> v \<noteq> [])"

section \<open>The file system\<close>

text \<open>
  The disk as the pass sees it. A file or a directory is known by the names on the way to
  it from the root, and \<open>fs_path\<close> reads a path string the way POSIX does: empty names and
  \<^verbatim>\<open>.\<close> are dropped, \<^verbatim>\<open>..\<close> climbs. The paths this code hands to the file system are
  absolute (a directory of the resolved configuration, or a result of \<^verbatim>\<open>resolve\<close>); a relative
  one is read from the root. The root is always a directory.
\<close>

record disk =
  files :: "string list \<Rightarrow> string option"
  dirs :: "string list set"

definition segments :: "string \<Rightarrow> string list" where
  "segments p = filter (\<lambda>s. s \<noteq> []) (js_split CHR ''/'' p)"

definition normalize_step :: "string \<Rightarrow> string list \<Rightarrow> string list" where
  "normalize_step seg acc =
     (if seg = ''.'' then acc else if seg = ''..'' then butlast acc else acc @ [seg])"

definition fs_path :: "string \<Rightarrow> string list" where
  "fs_path p = fold normalize_step (segments p) []"

definition fs_isDirectory :: "string list \<Rightarrow> disk \<Rightarrow> bool" where
  "fs_isDirectory k d = (k = [] \<or> k \<in> dirs d)"

text \<open>
  \<^verbatim>\<open>fs.ensureDir\<close> of \<^verbatim>\<open>fs-extra\<close> is a recursive \<^verbatim>\<open>mkdir\<close>: it fails when the path or one of
  its ancestors is a regular file, and otherwise leaves the path and every ancestor a
  directory. \<^verbatim>\<open>fs.exists\<close> and \<^verbatim>\<open>fs.readFile\<close> look at the path itself; reading anything but a
  regular file fails. \<^verbatim>\<open>fs.writeFile\<close> fails on a directory and where the parent is not a
  directory.
\<close>

definition fs_ensureDir :: "string \<Rightarrow> disk \<Rightarrow> error + disk" where
  "fs_ensureDir p d =
     (if \<exists>a\<in>set (prefixes (fs_path p)). files d a \<noteq> None then Inl FilesystemError
      else Inr (d\<lparr>dirs := dirs d \<union> set (prefixes (fs_path p))\<rparr>))"

definition fs_exists :: "string \<Rightarrow> disk \<Rightarrow> bool" where
  "fs_exists p d = (files d (fs_path p) \<noteq> None \<or> fs_isDirectory (fs_path p) d)"

definition fs_readFile :: "string \<Rightarrow> disk \<Rightarrow> error + string" where
  "fs_readFile p d =
     (case files d (fs_path p) of None \<Rightarrow> Inl FilesystemError | Some content \<Rightarrow> Inr content)"

definition fs_writeFile :: "string \<Rightarrow> string \<Rightarrow> disk \<Rightarrow> error + disk" where
  "fs_writeFile p content d =
     (if fs_isDirectory (fs_path p) d \<or> \<not> fs_isDirectory (butlast (fs_path p)) d
      then Inl FilesystemError
      else Inr (d\<lparr>files := (files d)(fs_path p \<mapsto> content)\<rparr>))"

text \<open>
  Modelled from the spec: \<^verbatim>\<open>writeFileIfDifferent\<close> of \<^verbatim>\<open>./utils/fs\<close> is not part of the
  sources at hand. It is the atomic write-if-changed of the specification: the file's
  content is written only if the content on disk differs from the new content, and
  unconditionally if the file does not exist yet.
\<close>

definition writeFileIfDifferent :: "string \<Rightarrow> string \<Rightarrow> disk \<Rightarrow> error + disk" where
  "writeFileIfDifferent file newContents d =
     (if files d (fs_path file) = Some newContents then Inr d
      else fs_writeFile file newContents d)"

section \<open>The generators\<close>

subsection \<open>\<^verbatim>\<open>getPathsDeclarationEntry\<close>\<close>

text \<open>
  Lines 70 to 110. \<open>publicPathUnions\<close> is the value of \<^verbatim>\<open>unions\<close> (lines 85 to 89), and
  \<^verbatim>\<open>unions || '    | never'\<close> takes the second string exactly when the first is empty.
\<close>

definition paths_template :: string where
  \<open>paths_template =
     ''// Generated by wxt\<newline>'' @
     ''import "wxt/browser";\<newline>'' @
     ''\<newline>'' @
     ''declare module "wxt/browser" {\<newline>'' @
     ''  export type PublicPath =\<newline>'' @
     ''{{ union }}\<newline>'' @
     ''  type HtmlPublicPath = Extract<PublicPath, `${string}.html`>\<newline>'' @
     ''  export interface WxtRuntime {\<newline>'' @
     ''    getURL(path: PublicPath): string;\<newline>'' @
     ''    getURL(path: `${HtmlPublicPath}${string}`): string;\<newline>'' @
     ''  }\<newline>'' @
     ''}\<newline>''\<close>

definition publicPathUnions :: "('ep, 'json) Wxt \<Rightarrow> string list \<Rightarrow> string" where
  \<open>publicPathUnions wxt paths =
     js_join ''\<newline>''
       (map (\<lambda>path. ''    | "/'' @ path @ ''"'') (sort (map (normalizePath wxt) paths)))\<close>

definition getPathsDeclarationEntry ::
  "('ep, 'json) Wxt \<Rightarrow> 'ep list \<Rightarrow> error + WxtDirFileEntry" where
  \<open>getPathsDeclarationEntry wxt entrypoints =
     (case getPublicFiles wxt of
        Inl e \<Rightarrow> Inl e
      | Inr publicFiles \<Rightarrow>
          (case hook_prepare_publicPaths wxt
                  (map (\<lambda>entry. getEntrypointBundlePath wxt entry (outDir (config wxt))
                                   (if isHtmlEntrypoint wxt entry then ''.html'' else ''.js''))
                       entrypoints
                   @ publicFiles) of
             Inl e \<Rightarrow> Inl e
           | Inr paths \<Rightarrow>
               (let unions = publicPathUnions wxt paths
                in Inr \<lparr>path = ''types/paths.d.ts'',
                        text = js_replace paths_template ''{{ union }}''
                                 (if unions \<noteq> [] then unions else ''    | never''),
                        tsReference = Some True\<rparr>)))\<close>

subsection \<open>\<^verbatim>\<open>getI18nDeclarationEntry\<close>\<close>

text \<open>
  Lines 112 to 191. \<open>commentLines\<close> is the array of that name built at lines 153 to 158,
  \<open>overrides\<close> the array of lines 170 to 184.
\<close>

definition i18n_template :: string where
  \<open>i18n_template =
     ''// Generated by wxt\<newline>'' @
     ''import "wxt/browser";\<newline>'' @
     ''\<newline>'' @
     ''declare module "wxt/browser" {\<newline>'' @
     ''  /**\<newline>'' @
     ''   * See https://developer.chrome.com/docs/extensions/reference/i18n/#method-getMessage\<newline>'' @
     ''   */\<newline>'' @
     ''  interface GetMessageOptions {\<newline>'' @
     ''    /**\<newline>'' @
     ''     * See https://developer.chrome.com/docs/extensions/reference/i18n/#method-getMessage\<newline>'' @
     ''     */\<newline>'' @
     ''    escapeLt?: boolean\<newline>'' @
     ''  }\<newline>'' @
     ''\<newline>'' @
     ''  export interface WxtI18n extends I18n.Static {\<newline>'' @
     ''{{ overrides }}\<newline>'' @
     ''  }\<newline>'' @
     ''}\<newline>''\<close>

definition commentLines :: "string option \<Rightarrow> string option \<Rightarrow> string list" where
  \<open>commentLines descr translation =
     (let lines1 = (if truthy descr then js_split CHR ''\<newline>'' (the descr) else [])
      in if truthy translation
         then (if length lines1 > 0 then lines1 @ [[]] else lines1)
              @ [''"'' @ the translation @ ''"'']
         else lines1)\<close>

definition renderGetMessageOverload ::
  "string \<Rightarrow> string option \<Rightarrow> string option \<Rightarrow> string" where
  \<open>renderGetMessageOverload keyType descr translation =
     (let lines = commentLines descr translation;
          comment =
            (if length lines > 0
             then ''/**\<newline>''
                  @ js_join ''\<newline>'' (map (\<lambda>line. js_trimEnd (''     * '' @ line)) lines)
                  @ ''\<newline>     */\<newline>    ''
             else [])
      in ''    '' @ comment @ ''getMessage(\<newline>'' @
         ''      messageName: '' @ keyType @ '',\<newline>'' @
         ''      substitutions?: string | string[],\<newline>'' @
         ''      options?: GetMessageOptions,\<newline>'' @
         ''    ): string;'')\<close>

definition overrides :: "Message list \<Rightarrow> string list" where
  \<open>overrides messages =
     map (\<lambda>m. renderGetMessageOverload (''"'' @ name m @ ''"'') (description m) (message m))
         messages
     @ [renderGetMessageOverload
          (js_join '' | '' (map (\<lambda>m. ''"'' @ name m @ ''"'') messages)) None None]\<close>

definition defaultLocalePath :: "('ep, 'json) Wxt \<Rightarrow> string" where
  \<open>defaultLocalePath wxt =
     resolve wxt [publicDir (config wxt), ''_locales'',
                  (case default_locale (config wxt) of None \<Rightarrow> [] | Some l \<Rightarrow> l),
                  ''messages.json'']\<close>

text \<open>
  The messages of the default locale: the parsed catalog when the file exists, the result of
  parsing the empty object otherwise. Reading and \<^verbatim>\<open>JSON.parse\<close> can throw.
\<close>

definition defaultLocaleMessages :: "('ep, 'json) Wxt \<Rightarrow> disk \<Rightarrow> error + Message list" where
  \<open>defaultLocaleMessages wxt d =
     (if fs_exists (defaultLocalePath wxt) d
      then (case fs_readFile (defaultLocalePath wxt) d of
              Inl e \<Rightarrow> Inl e
            | Inr raw \<Rightarrow>
                (case JSON_parse wxt raw of
                   Inl e \<Rightarrow> Inl e
                 | Inr content \<Rightarrow> Inr (parseI18nMessages wxt content)))
      else Inr (parseI18nMessages wxt (empty_object wxt)))\<close>

definition getI18nDeclarationEntry ::
  "('ep, 'json) Wxt \<Rightarrow> disk \<Rightarrow> error + WxtDirFileEntry" where
  \<open>getI18nDeclarationEntry wxt d =
     (case defaultLocaleMessages wxt d of
        Inl e \<Rightarrow> Inl e
      | Inr messages \<Rightarrow>
          Inr \<lparr>path = ''types/i18n.d.ts'',
               text = js_replace i18n_template ''{{ overrides }}''
                        (js_join ''\<newline>'' (overrides messages)),
               tsReference = Some True\<rparr>)\<close>

subsection \<open>\<^verbatim>\<open>getGlobalsDeclarationEntry\<close>\<close>

text \<open>Lines 193 to 209.\<close>

definition getGlobalsDeclarationEntry :: "('ep, 'json) Wxt \<Rightarrow> WxtDirFileEntry" where
  \<open>getGlobalsDeclarationEntry wxt =
     (let globals = getGlobals wxt (config wxt) @ getEntrypointGlobals wxt []
      in \<lparr>path = ''types/globals.d.ts'',
          text = js_join ''\<newline>''
                   ([''// Generated by wxt'', ''interface ImportMetaEnv {'']
                    @ map (\<lambda>global. ''  readonly '' @ global_name global @ '': ''
                                      @ global_type global @ '';'') globals
                    @ [''}'', ''interface ImportMeta {'', ''  readonly env: ImportMetaEnv'',
                       ''}'', []]),
          tsReference = Some True\<rparr>)\<close>

subsection \<open>\<^verbatim>\<open>getMainDeclarationEntry\<close>\<close>

text \<open>
  Lines 211 to 226. The \<^verbatim>\<open>forEach\<close> loop is a fold over the references that pushes onto
  \<^verbatim>\<open>lines\<close>. The test \<^verbatim>\<open>ref.tsReference\<close> succeeds only when the property is \<^verbatim>\<open>true\<close>.
\<close>

definition pushReference ::
  "('ep, 'json) Wxt \<Rightarrow> WxtDirEntry \<Rightarrow> string list \<Rightarrow> string list" where
  \<open>pushReference wxt ref lines =
     (case ref of
        ModuleEntry m \<Rightarrow> lines @ [''/// <reference types="'' @ m @ ''" />'']
      | FileEntry f \<Rightarrow>
          (if tsReference f = Some True
           then (let absolutePath = resolve wxt [wxtDir (config wxt), path f];
                     relativePath = relative wxt (wxtDir (config wxt)) absolutePath
                 in lines @ [''/// <reference types="./'' @ normalizePath wxt relativePath
                             @ ''" />''])
           else lines))\<close>

definition mainDeclarationLines :: "('ep, 'json) Wxt \<Rightarrow> WxtDirEntry list \<Rightarrow> string list" where
  \<open>mainDeclarationLines wxt references =
     fold (pushReference wxt) references [''// Generated by wxt'']\<close>

definition getMainDeclarationEntry ::
  "('ep, 'json) Wxt \<Rightarrow> WxtDirEntry list \<Rightarrow> WxtDirFileEntry" where
  \<open>getMainDeclarationEntry wxt references =
     \<lparr>path = ''wxt.d.ts'',
      text = js_join ''\<newline>'' (mainDeclarationLines wxt references) @ ''\<newline>'',
      tsReference = None\<rparr>\<close>

subsection \<open>\<^verbatim>\<open>getTsConfigEntry\<close>\<close>

text \<open>
  Lines 228 to 271. \<open>tsconfigPaths\<close> is the array of lines 235 to 242 ahead of its
  \<^verbatim>\<open>join\<close>.
\<close>

definition getTsconfigPath :: "('ep, 'json) Wxt \<Rightarrow> string \<Rightarrow> string" where
  \<open>getTsconfigPath wxt p =
     (let res = normalizePath wxt (relative wxt (wxtDir (config wxt)) p)
      in if js_startsWith res ''.'' \<or> js_startsWith res ''/'' then res else ''./'' @ res)\<close>

definition tsconfigPaths :: "('ep, 'json) Wxt \<Rightarrow> string list" where
  \<open>tsconfigPaths wxt =
     concat (map (\<lambda>(alias, absolutePath).
                    (let aliasPath = getTsconfigPath wxt absolutePath
                     in [''      "'' @ alias @ ''": ["'' @ aliasPath @ ''"]'',
                         ''      "'' @ alias @ ''/*": ["'' @ aliasPath @ ''/*"]'']))
                 (alias (config wxt)))\<close>

definition getTsConfigEntry :: "('ep, 'json) Wxt \<Rightarrow> WxtDirFileEntry" where
  \<open>getTsConfigEntry wxt =
     \<lparr>path = ''tsconfig.json'',
      text =
        ''{\<newline>'' @
        ''  "compilerOptions": {\<newline>'' @
        ''    "target": "ESNext",\<newline>'' @
        ''    "module": "ESNext",\<newline>'' @
        ''    "moduleResolution": "Bundler",\<newline>'' @
        ''    "noEmit": true,\<newline>'' @
        ''    "esModuleInterop": true,\<newline>'' @
        ''    "forceConsistentCasingInFileNames": true,\<newline>'' @
        ''    "resolveJsonModule": true,\<newline>'' @
        ''    "strict": true,\<newline>'' @
        ''    "skipLibCheck": true,\<newline>'' @
        ''    "paths": {\<newline>'' @
        js_join '',\<newline>'' (tsconfigPaths wxt) @ ''\<newline>'' @
        ''    }\<newline>'' @
        ''  },\<newline>'' @
        ''  "include": [\<newline>'' @
        ''    "'' @ getTsconfigPath wxt (root (config wxt)) @ ''/**/*",\<newline>'' @
        ''    "./wxt.d.ts"\<newline>'' @
        ''  ],\<newline>'' @
        ''  "exclude": ["'' @ getTsconfigPath wxt (outBaseDir (config wxt)) @ ''"]\<newline>'' @
        ''}'',
      tsReference = None\<rparr>\<close>

section \<open>The orchestrator\<close>

text \<open>
  \<^verbatim>\<open>generateWxtDir\<close>, lines 15 to 68, step by step. Lines 18 to 46: the entries
  collected ahead of the \<^verbatim>\<open>prepare:types\<close> hook, given the two entries whose generators can
  fail. Lines 32 to 52: the generators in their order, the hook, and the main declaration
  pushed last. Lines 55 to 60: the file entries with their paths resolved.
\<close>

definition entriesBeforeHook ::
  "('ep, 'json) Wxt \<Rightarrow> WxtDirFileEntry \<Rightarrow> WxtDirFileEntry \<Rightarrow> WxtDirEntry list" where
  \<open>entriesBeforeHook wxt pathsEntry i18nEntry =
     [ModuleEntry ''wxt/vite-builder-env'']
     @ map (\<lambda>m. ModuleEntry (module_id m))
           (filter (\<lambda>m. module_type m = ''node_module'') (userModules (config wxt)))
     @ [FileEntry pathsEntry]
     @ [FileEntry i18nEntry]
     @ [FileEntry (getGlobalsDeclarationEntry wxt)]
     @ (if extensionApi (config wxt) = ''chrome'' then [ModuleEntry ''@types/chrome''] else [])
     @ [FileEntry (getTsConfigEntry wxt)]\<close>

definition collectEntries ::
  "('ep, 'json) Wxt \<Rightarrow> 'ep list \<Rightarrow> disk \<Rightarrow> error + WxtDirEntry list" where
  \<open>collectEntries wxt entrypoints d =
     (case getPathsDeclarationEntry wxt entrypoints of
        Inl e \<Rightarrow> Inl e
      | Inr pathsEntry \<Rightarrow>
          (case getI18nDeclarationEntry wxt d of
             Inl e \<Rightarrow> Inl e
           | Inr i18nEntry \<Rightarrow>
               (case hook_prepare_types wxt (entriesBeforeHook wxt pathsEntry i18nEntry) of
                  Inl e \<Rightarrow> Inl e
                | Inr entries \<Rightarrow>
                    Inr (entries @ [FileEntry (getMainDeclarationEntry wxt entries)]))))\<close>

fun fileEntries :: "WxtDirEntry list \<Rightarrow> WxtDirFileEntry list" where
  "fileEntries [] = []"
| "fileEntries (ModuleEntry m # es) = fileEntries es"
| "fileEntries (FileEntry f # es) = f # fileEntries es"

definition absoluteFileEntries ::
  "('ep, 'json) Wxt \<Rightarrow> WxtDirEntry list \<Rightarrow> WxtDirFileEntry list" where
  \<open>absoluteFileEntries wxt entries =
     map (\<lambda>entry. entry\<lparr>path := resolve wxt [wxtDir (config wxt), path entry]\<rparr>)
         (fileEntries entries)\<close>

text \<open>
  Lines 62 to 67. Every callback of the \<^verbatim>\<open>map\<close> awaits two file operations, first
  \<^verbatim>\<open>fs.ensureDir\<close> and then \<^verbatim>\<open>writeFileIfDifferent\<close>, and the callbacks run concurrently: the
  operations of one callback complete in that order, those of different callbacks in any
  order. A callback is waiting for one of its two operations, or it has settled.
\<close>

datatype stage = AwaitEnsureDir | AwaitWrite | Fulfilled | Rejected error

fun advance :: "('ep, 'json) Wxt \<Rightarrow> WxtDirFileEntry \<Rightarrow> stage \<Rightarrow> disk \<Rightarrow> stage \<times> disk" where
  "advance wxt file AwaitEnsureDir d =
     (case fs_ensureDir (dirname wxt (path file)) d of
        Inl e \<Rightarrow> (Rejected e, d)
      | Inr d1 \<Rightarrow> (AwaitWrite, d1))"
| "advance wxt file AwaitWrite d =
     (case writeFileIfDifferent (path file) (text file) d of
        Inl e \<Rightarrow> (Rejected e, d)
      | Inr d2 \<Rightarrow> (Fulfilled, d2))"
| "advance wxt file Fulfilled d = (Fulfilled, d)"
| "advance wxt file (Rejected e) d = (Rejected e, d)"

text \<open>
  The state of the \<^verbatim>\<open>Promise.all\<close>: the stage of every callback, the first rejection so
  far, and the disk. \<open>complete\<close> lets the pending operation of callback \<open>i\<close> complete; a
  number that names no callback completes nothing.
\<close>

record promises =
  callbacks :: "stage list"
  rejection :: "error option"
  on_disk :: disk

definition complete ::
  "('ep, 'json) Wxt \<Rightarrow> WxtDirFileEntry list \<Rightarrow> nat \<Rightarrow> promises \<Rightarrow> promises" where
  "complete wxt fs i s =
     (if i < length fs
      then (let (st, d) = advance wxt (fs ! i) (callbacks s ! i) (on_disk s)
            in \<lparr>callbacks = (callbacks s)[i := st],
                rejection = (case rejection s of
                               Some e \<Rightarrow> Some e
                             | None \<Rightarrow> (case st of Rejected e \<Rightarrow> Some e | _ \<Rightarrow> None)),
                on_disk = d\<rparr>)
      else s)"

text \<open>
  The write phase under a schedule: the order in which the file operations complete, each
  number naming the callback whose pending operation completes next. What the schedule
  leaves pending completes after it, callback by callback, so that every schedule is a full
  run and every interleaving of the callbacks is the run of a schedule. The promise rejects
  with the first rejection; the other callbacks go on all the same, and the disk returned
  is the one they leave.
\<close>

definition writeAll ::
  "('ep, 'json) Wxt \<Rightarrow> WxtDirFileEntry list \<Rightarrow> nat list \<Rightarrow> disk \<Rightarrow> (error + unit) \<times> disk" where
  "writeAll wxt fs schedule d =
     (let s = fold (complete wxt fs)
                (schedule @ concat (map (\<lambda>i. [i, i]) [0..<length fs]))
                \<lparr>callbacks = replicate (length fs) AwaitEnsureDir, rejection = None,
                 on_disk = d\<rparr>
      in (case rejection s of Some e \<Rightarrow> Inl e | None \<Rightarrow> Inr (), on_disk s))"

definition generateWxtDir ::
  "('ep, 'json) Wxt \<Rightarrow> 'ep list \<Rightarrow> nat list \<Rightarrow> disk \<Rightarrow> (error + unit) \<times> disk" where
  \<open>generateWxtDir wxt entrypoints schedule d =
     (case fs_ensureDir (typesDir (config wxt)) d of
        Inl e \<Rightarrow> (Inl e, d)
      | Inr d1 \<Rightarrow>
          (case collectEntries wxt entrypoints d1 of
             Inl e \<Rightarrow> (Inl e, d1)
           | Inr entries \<Rightarrow> writeAll wxt (absoluteFileEntries wxt entries) schedule d1))\<close>

section \<open>A concrete build context\<close>

text \<open>
  The POSIX behaviour of \<^verbatim>\<open>node:path\<close> on a fixed absolute working directory: \<^verbatim>\<open>resolve\<close>
  joins its arguments from the last absolute one on and removes \<^verbatim>\<open>.\<close>, \<^verbatim>\<open>..\<close> and empty
  segments; \<^verbatim>\<open>relative\<close> climbs from the first path to the common ancestor and descends to
  the second; \<^verbatim>\<open>dirname\<close> drops the last segment.
\<close>

definition posix_resolve :: "string \<Rightarrow> string list \<Rightarrow> string" where
  "posix_resolve cwd paths =
     (let joined = fold (\<lambda>p acc. if p = [] then acc
                                  else if hd p = CHR ''/'' then p
                                  else acc @ ''/'' @ p) paths cwd
      in ''/'' @ js_join ''/'' (fold normalize_step (segments joined) []))"

fun strip_common :: "string list \<Rightarrow> string list \<Rightarrow> string list \<times> string list" where
  "strip_common (x # xs) (y # ys) = (if x = y then strip_common xs ys else (x # xs, y # ys))"
| "strip_common xs ys = (xs, ys)"

definition posix_relative :: "string \<Rightarrow> string \<Rightarrow> string \<Rightarrow> string" where
  "posix_relative cwd from to =
     (let (up, down) = strip_common (segments (posix_resolve cwd [from]))
                                    (segments (posix_resolve cwd [to]))
      in js_join ''/'' (map (\<lambda>s. ''..'') up @ down))"

definition posix_dirname :: "string \<Rightarrow> string" where
  "posix_dirname p =
     (if js_startsWith p ''/'' then ''/'' @ js_join ''/'' (butlast (segments p))
      else if length (segments p) \<le> 1 then ''.''
      else js_join ''/'' (butlast (segments p)))"

text \<open>
  Modelled from the spec: \<^verbatim>\<open>normalizePath\<close> of \<^verbatim>\<open>./utils/paths\<close> is not part of the
  sources at hand. It normalizes a path to forward-slash form.
\<close>

definition forward_slashes :: "string \<Rightarrow> string" where
  "forward_slashes p = map (\<lambda>c. if c = CHR 0x5C then CHR ''/'' else c) p"

definition demo_config :: config where
  \<open>demo_config =
     \<lparr>typesDir = ''/project/.generated/types'',
      wxtDir = ''/project/.generated'',
      outDir = ''/project/.output/chrome-mv3'',
      publicDir = ''/project/public'',
      root = ''/project'',
      outBaseDir = ''/project/.output'',
      default_locale = Some ''en'',
      userModules = [\<lparr>module_type = ''node_module'', module_id = ''@wxt-dev/auto-icons''\<rparr>,
                     \<lparr>module_type = ''local'', module_id = ''modules/example.ts''\<rparr>],
      extensionApi = ''chrome'',
      alias = [(''@'', ''/project/src'')]\<rparr>\<close>

text \<open>
  An entrypoint is its name and whether it is a page; its bundle path is the name with the
  extension. The parser of this context accepts the empty object only, and the hooks
  contribute nothing.
\<close>

definition demo_wxt :: "(string \<times> bool, Message list) Wxt" where
  \<open>demo_wxt =
     \<lparr>config = demo_config,
      resolve = posix_resolve ''/project'',
      relative = posix_relative ''/project'',
      dirname = posix_dirname,
      normalizePath = forward_slashes,
      getEntrypointBundlePath = (\<lambda>entry outDir ext. fst entry @ ext),
      isHtmlEntrypoint = snd,
      getPublicFiles = Inr [],
      getGlobals = (\<lambda>c. [\<lparr>global_name = ''MANIFEST_VERSION'', global_type = ''2 | 3''\<rparr>]),
      getEntrypointGlobals = (\<lambda>n. [\<lparr>global_name = ''ENTRYPOINT'', global_type = ''string''\<rparr>]),
      JSON_parse = (\<lambda>raw. if raw = ''{}'' then Inr [] else Inl SyntaxError),
      empty_object = [],
      parseI18nMessages = (\<lambda>content. content),
      hook_prepare_publicPaths = Inr,
      hook_prepare_types = Inr\<rparr>\<close>

definition empty_disk :: disk where
  "empty_disk = \<lparr>files = (\<lambda>k. None), dirs = {}\<rparr>"

section \<open>Notions of the specification\<close>







text \<open>What an entry is known by: the module name, or the path of the file.\<close>

fun entryLabel :: "WxtDirEntry \<Rightarrow> string" where
  "entryLabel (ModuleEntry m) = m"
| "entryLabel (FileEntry f) = path f"

definition collectedLabels ::
  "('ep, 'json) Wxt \<Rightarrow> 'ep list \<Rightarrow> disk \<Rightarrow> error + string list" where
  "collectedLabels wxt entrypoints d =
     (case collectEntries wxt entrypoints d of
        Inl e \<Rightarrow> Inl e
      | Inr entries \<Rightarrow> Inr (map entryLabel entries))"

text \<open>A \<^verbatim>\<open>prepare:types\<close> hook that pushes the given entries.\<close>

definition pushes :: "WxtDirEntry list \<Rightarrow> WxtDirEntry list \<Rightarrow> error + WxtDirEntry list" where
  "pushes extra entries = Inr (entries @ extra)"

text \<open>
  The file entries a pass hands to its write phase: those of the collected entries, with
  their paths resolved against the output root.
\<close>

definition handedToWriter ::
  "('ep, 'json) Wxt \<Rightarrow> 'ep list \<Rightarrow> disk \<Rightarrow> error + WxtDirFileEntry list" where
  "handedToWriter wxt entrypoints d =
     (case fs_ensureDir (typesDir (config wxt)) d of
        Inl e \<Rightarrow> Inl e
      | Inr d1 \<Rightarrow>
          (case collectEntries wxt entrypoints d1 of
             Inl e \<Rightarrow> Inl e
           | Inr entries \<Rightarrow> Inr (absoluteFileEntries wxt entries)))"

text \<open>
  Where a file entry goes on disk, and a disk on which the file operations of a write phase
  cannot fail: the directory ensured for an entry is the parent of its file, no ancestor of
  a file to write is a regular file, no file to write is the root or a directory, and no
  file to write lies below another one.
\<close>

definition target :: "WxtDirFileEntry \<Rightarrow> string list" where
  "target f = fs_path (path f)"

definition writable :: "('ep, 'json) Wxt \<Rightarrow> WxtDirFileEntry list \<Rightarrow> disk \<Rightarrow> bool" where
  "writable wxt fs d =
     ((\<forall>f\<in>set fs. target f \<noteq> [] \<and> target f \<notin> dirs d
          \<and> fs_path (dirname wxt (path f)) = butlast (target f)
          \<and> (\<forall>a\<in>set (prefixes (butlast (target f))). files d a = None))
      \<and> (\<forall>f\<in>set fs. \<forall>g\<in>set fs. \<not> strict_prefix (target f) (target g)))"

text \<open>
  Concrete inputs: a module whose hook pushes a file entry at the path of the paths
  declaration; the place of the default-locale catalog of the concrete build context; a
  disk whose catalog is cut short; a disk that holds a main declaration from an earlier pass
  and an unrelated file.
\<close>

definition duplicate_wxt :: "(string \<times> bool, Message list) Wxt" where
  "duplicate_wxt =
     demo_wxt\<lparr>hook_prepare_types :=
       pushes [FileEntry \<lparr>path = ''types/paths.d.ts'', text = ''// from a module'',
                          tsReference = None\<rparr>]\<rparr>"

definition catalog_path :: "string list" where
  "catalog_path = [''project'', ''public'', ''_locales'', ''en'', ''messages.json'']"

definition catalog_dirs :: "string list set" where
  "catalog_dirs = {[''project''], [''project'', ''public''],
                   [''project'', ''public'', ''_locales''],
                   [''project'', ''public'', ''_locales'', ''en'']}"

definition broken_disk :: disk where
  \<open>broken_disk = \<lparr>files = [catalog_path \<mapsto> ''{ "greet": ''], dirs = catalog_dirs\<rparr>\<close>

definition stale_disk :: disk where
  "stale_disk = \<lparr>files = [[''project'', ''.generated'', ''wxt.d.ts''] \<mapsto> ''// stale'',
                          [''project'', ''notes.txt''] \<mapsto> ''keep''],
                 dirs = {[''project''], [''project'', ''.generated'']}\<rparr>"

text \<open>
  The two templates around their placeholders, and the absence of a pair of adjacent
  characters from a string.
\<close>

fun no_pair :: "char \<Rightarrow> char \<Rightarrow> string \<Rightarrow> bool" where
  "no_pair a b (c # d # r) = (\<not> (c = a \<and> d = b) \<and> no_pair a b (d # r))"
| "no_pair a b r = True"

definition paths_head :: string where
  \<open>paths_head =
     ''// Generated by wxt\<newline>'' @
     ''import "wxt/browser";\<newline>'' @
     ''\<newline>'' @
     ''declare module "wxt/browser" {\<newline>'' @
     ''  export type PublicPath =\<newline>''\<close>

definition paths_tail :: string where
  \<open>paths_tail =
     ''\<newline>'' @
     ''  type HtmlPublicPath = Extract<PublicPath, `${string}.html`>\<newline>'' @
     ''  export interface WxtRuntime {\<newline>'' @
     ''    getURL(path: PublicPath): string;\<newline>'' @
     ''    getURL(path: `${HtmlPublicPath}${string}`): string;\<newline>'' @
     ''  }\<newline>'' @
     ''}\<newline>''\<close>

definition i18n_head :: string where
  \<open>i18n_head =
     ''// Generated by wxt\<newline>'' @
     ''import "wxt/browser";\<newline>'' @
     ''\<newline>'' @
     ''declare module "wxt/browser" {\<newline>'' @
     ''  /**\<newline>'' @
     ''   * See https://developer.chrome.com/docs/extensions/reference/i18n/#method-getMessage\<newline>'' @
     ''   */\<newline>'' @
     ''  interface GetMessageOptions {\<newline>'' @
     ''    /**\<newline>'' @
     ''     * See https://developer.chrome.com/docs/extensions/reference/i18n/#method-getMessage\<newline>'' @
     ''     */\<newline>'' @
     ''    escapeLt?: boolean\<newline>'' @
     ''  }\<newline>'' @
     ''\<newline>'' @
     ''  export interface WxtI18n extends I18n.Static {\<newline>''\<close>

definition i18n_tail :: string where
  \<open>i18n_tail = ''\<newline>'' @ ''  }\<newline>'' @ ''}\<newline>''\<close>

text \<open>
  Further concrete inputs: a public directory with a file whose name has two dollar signs;
  a catalog with the messages \<^verbatim>\<open>greet\<close> and \<^verbatim>\<open>farewell\<close>; a module whose hook pushes a
  reference to its types and a declaration file of its own.
\<close>

definition dollar_wxt :: "(string \<times> bool, Message list) Wxt" where
  "dollar_wxt = demo_wxt\<lparr>getPublicFiles := Inr [''price$$.png'']\<rparr>"

definition greet_farewell :: "Message list" where
  "greet_farewell =
     [\<lparr>name = ''greet'', message = Some ''Hello $1'', description = Some ''Greets the user''\<rparr>,
      \<lparr>name = ''farewell'', message = Some ''Bye'', description = None\<rparr>]"

definition module_wxt :: "(string \<times> bool, Message list) Wxt" where
  "module_wxt =
     demo_wxt\<lparr>hook_prepare_types :=
       pushes [ModuleEntry ''@wxt-dev/i18n'',
               FileEntry \<lparr>path = ''types/icons.d.ts'', text = ''export {}'',
                          tsReference = Some True\<rparr>]\<rparr>"

text \<open>
  A replacement string in which \<^verbatim>\<open>GetSubstitution\<close> finds no pattern to expand.
\<close>

definition no_dollar_pattern :: "string \<Rightarrow> bool" where
  "no_dollar_pattern r =
     (no_pair CHR ''$'' CHR ''$'' r \<and> no_pair CHR ''$'' CHR ''&'' r
      \<and> no_pair CHR ''$'' CHR 0x60 r \<and> no_pair CHR ''$'' CHR 0x27 r)"

text \<open>
  A catalog on disk, with a parser that reads it (and nothing else but the empty object).
\<close>

definition greet_farewell_json :: string where
  \<open>greet_farewell_json =
     ''{"greet": {"message": "Hello $1", "description": "Greets the user"}, "farewell": {"message": "Bye"}}''\<close>

definition catalog_wxt :: "(string \<times> bool, Message list) Wxt" where
  "catalog_wxt =
     demo_wxt\<lparr>JSON_parse :=
       (\<lambda>raw. if raw = greet_farewell_json then Inr greet_farewell else JSON_parse demo_wxt raw)\<rparr>"

definition catalog_disk :: disk where
  "catalog_disk = \<lparr>files = [catalog_path \<mapsto> greet_farewell_json], dirs = catalog_dirs\<rparr>"

text \<open>A catalog whose only key has two dollar signs, with a parser that reads it.\<close>

definition dollar_key_json :: string where
  \<open>dollar_key_json = ''{"price$$": {"message": "Price"}}''\<close>

definition dollar_key_messages :: "Message list" where
  "dollar_key_messages = [\<lparr>name = ''price$$'', message = Some ''Price'', description = None\<rparr>]"

definition dollar_key_wxt :: "(string \<times> bool, Message list) Wxt" where
  "dollar_key_wxt =
     demo_wxt\<lparr>JSON_parse :=
       (\<lambda>raw. if raw = dollar_key_json then Inr dollar_key_messages
              else JSON_parse demo_wxt raw)\<rparr>"

definition dollar_key_disk :: disk where
  "dollar_key_disk = \<lparr>files = [catalog_path \<mapsto> dollar_key_json], dirs = catalog_dirs\<rparr>"

text \<open>
  The directories of the concrete build context once its types directory is ensured, and
  the text of the main declaration that a pass collects: that of its last entry.
\<close>

definition generated_dirs :: "string list set" where
  "generated_dirs = {[], [''project''], [''project'', ''.generated''],
                     [''project'', ''.generated'', ''types'']}"


text \<open>
  Two more modules: the hook of the first pushes a declaration file of its own at the path
  of the main declaration, with the emit-reference flag; the hook of the second sets the
  flag on the entry of the project configuration it finds in the array.
\<close>

definition selfref_wxt :: "(string \<times> bool, Message list) Wxt" where
  "selfref_wxt =
     demo_wxt\<lparr>hook_prepare_types :=
       pushes [FileEntry \<lparr>path = ''wxt.d.ts'', text = ''export {}'',
                          tsReference = Some True\<rparr>]\<rparr>"

fun flagTsConfig :: "WxtDirEntry \<Rightarrow> WxtDirEntry" where
  "flagTsConfig (ModuleEntry m) = ModuleEntry m"
| "flagTsConfig (FileEntry f) =
     FileEntry (if path f = ''tsconfig.json'' then f\<lparr>tsReference := Some True\<rparr> else f)"

definition flagging_wxt :: "(string \<times> bool, Message list) Wxt" where
  "flagging_wxt = demo_wxt\<lparr>hook_prepare_types := (\<lambda>entries. Inr (map flagTsConfig entries))\<rparr>"

section \<open>Template substitution\<close>

lemma split_at_first_found:
  assumes "no_pair a b (x @ [a])"
  shows "split_at_first (a # b # rest) (x @ (a # b # rest) @ y) = Some (x, y)"
  using assms
proof (induction x)
  case Nil
  show ?case by (simp add: js_startsWith_def)
next
  case (Cons c cs)
  have "\<not> js_startsWith ((c # cs) @ (a # b # rest) @ y) (a # b # rest)"
    using Cons.prems by (cases cs) (auto simp: js_startsWith_def)
  moreover have "no_pair a b (cs @ [a])"
    using Cons.prems by (cases cs) auto
  ultimately show ?case
    using Cons.IH by simp
qed

lemma paths_template_parts: "paths_template = paths_head @ ''{{ union }}'' @ paths_tail"
  by (simp add: paths_template_def paths_head_def paths_tail_def)

lemma i18n_template_parts: "i18n_template = i18n_head @ ''{{ overrides }}'' @ i18n_tail"
  by (simp add: i18n_template_def i18n_head_def i18n_tail_def)

lemma split_paths_template:
  "split_at_first ''{{ union }}'' paths_template = Some (paths_head, paths_tail)"
proof -
  have "no_pair CHR ''{'' CHR ''{'' (paths_head @ [CHR ''{''])"
    by (simp add: paths_head_def)
  then have "split_at_first (CHR ''{'' # CHR ''{'' # '' union }}'')
      (paths_head @ (CHR ''{'' # CHR ''{'' # '' union }}'') @ paths_tail) = Some (paths_head, paths_tail)"
    by (rule split_at_first_found)
  then show ?thesis
    by (simp add: paths_template_parts)
qed

lemma split_i18n_template:
  "split_at_first ''{{ overrides }}'' i18n_template = Some (i18n_head, i18n_tail)"
proof -
  have "no_pair CHR ''{'' CHR ''{'' (i18n_head @ [CHR ''{''])"
    by (simp add: i18n_head_def)
  then have "split_at_first (CHR ''{'' # CHR ''{'' # '' overrides }}'')
      (i18n_head @ (CHR ''{'' # CHR ''{'' # '' overrides }}'') @ i18n_tail) = Some (i18n_head, i18n_tail)"
    by (rule split_at_first_found)
  then show ?thesis
    by (simp add: i18n_template_parts)
qed

lemma js_replace_split:
  "split_at_first pat s = Some (preceding, following)
   \<Longrightarrow> js_replace s pat r = preceding @ GetSubstitution pat preceding following r @ following"
  by (simp add: js_replace_def)

lemma GetSubstitution_plain:
  "CHR ''$'' \<notin> set r \<Longrightarrow> GetSubstitution m a b r = r"
  by (induction m a b r rule: GetSubstitution.induct) auto

lemma GetSubstitution_no_pattern:
  "no_dollar_pattern r \<Longrightarrow> GetSubstitution m a b r = r"
  unfolding no_dollar_pattern_def
  by (induction m a b r rule: GetSubstitution.induct) auto

section \<open>The main declaration\<close>

lemmas demo_defs = demo_wxt_def demo_config_def posix_resolve_def posix_relative_def
  posix_dirname_def forward_slashes_def segments_def normalize_step_def











section \<open>The write phase\<close>

lemma fs_ensureDir_Inr:
  "fs_ensureDir p d = Inr d'
   \<Longrightarrow> files d' = files d \<and> dirs d' = dirs d \<union> set (prefixes (fs_path p))"
  by (auto simp: fs_ensureDir_def split: if_splits)

lemma writeFileIfDifferent_Inr:
  assumes "writeFileIfDifferent p t d = Inr d'"
  shows "files d' = (files d)(fs_path p \<mapsto> t) \<and> dirs d' = dirs d"
proof (cases "files d (fs_path p) = Some t")
  case True
  then have "d' = d" and "(files d)(fs_path p \<mapsto> t) = files d"
    using assms by (auto simp: writeFileIfDifferent_def)
  then show ?thesis by simp
next
  case False
  then show ?thesis
    using assms by (auto simp: writeFileIfDifferent_def fs_writeFile_def split: if_splits)
qed

lemma advance_disk:
  assumes "advance wxt f st d = (st', d')"
  shows "dirs d \<subseteq> dirs d'"
    and "files d' = files d \<or> (st' = Fulfilled \<and> files d' = (files d)(target f \<mapsto> text f))"
    and "st' = Fulfilled \<Longrightarrow> files d' (target f) = Some (text f) \<or> st = Fulfilled"
proof -
  show "dirs d \<subseteq> dirs d'"
    using assms fs_ensureDir_Inr writeFileIfDifferent_Inr
    by (cases st) (fastforce split: sum.splits)+
  show "files d' = files d \<or> (st' = Fulfilled \<and> files d' = (files d)(target f \<mapsto> text f))"
    using assms fs_ensureDir_Inr writeFileIfDifferent_Inr
    by (cases st) (fastforce simp: target_def split: sum.splits)+
  show "st' = Fulfilled \<Longrightarrow> files d' (target f) = Some (text f) \<or> st = Fulfilled"
    using assms fs_ensureDir_Inr writeFileIfDifferent_Inr
    by (cases st) (fastforce simp: target_def split: sum.splits)+
qed

lemma complete_fields:
  assumes "i < length fs"
  shows "callbacks (complete wxt fs i s)
           = (callbacks s)[i := fst (advance wxt (fs ! i) (callbacks s ! i) (on_disk s))]"
    and "on_disk (complete wxt fs i s) = snd (advance wxt (fs ! i) (callbacks s ! i) (on_disk s))"
    and "rejection (complete wxt fs i s)
           = (case rejection s of
                Some e \<Rightarrow> Some e
              | None \<Rightarrow> (case fst (advance wxt (fs ! i) (callbacks s ! i) (on_disk s)) of
                           Rejected e \<Rightarrow> Some e | _ \<Rightarrow> None))"
  using assms by (simp_all add: complete_def split_beta)

lemma complete_idle: "\<not> i < length fs \<Longrightarrow> complete wxt fs i s = s"
  by (simp add: complete_def)

lemma fold_complete_invariant:
  assumes "P s" and "\<And>i s. i < length fs \<Longrightarrow> P s \<Longrightarrow> P (complete wxt fs i s)"
  shows "P (fold (complete wxt fs) steps s)"
  using assms(1)
proof (induction steps arbitrary: s)
  case Nil
  then show ?case by simp
next
  case (Cons i steps)
  have "P (complete wxt fs i s)"
    using Cons.prems assms(2) [of i s] complete_idle [of i fs wxt s] by (cases "i < length fs") simp_all
  then show ?case
    using Cons.IH by simp
qed

lemma complete_length:
  "length (callbacks s) = length fs \<Longrightarrow> length (callbacks (complete wxt fs i s)) = length fs"
  by (cases "i < length fs") (simp_all add: complete_fields complete_idle)

lemma complete_written:
  assumes dist: "distinct (map target fs)"
      and len: "length (callbacks s) = length fs"
      and inv: "\<forall>j<length fs. callbacks s ! j = Fulfilled
                  \<longrightarrow> files (on_disk s) (target (fs ! j)) = Some (text (fs ! j))"
      and i: "i < length fs"
  shows "\<forall>j<length fs. callbacks (complete wxt fs i s) ! j = Fulfilled
           \<longrightarrow> files (on_disk (complete wxt fs i s)) (target (fs ! j)) = Some (text (fs ! j))"
proof (intro allI impI)
  fix j
  assume j: "j < length fs" and ful: "callbacks (complete wxt fs i s) ! j = Fulfilled"
  obtain st d where adv: "advance wxt (fs ! i) (callbacks s ! i) (on_disk s) = (st, d)"
    by (cases "advance wxt (fs ! i) (callbacks s ! i) (on_disk s)")
  have cb: "callbacks (complete wxt fs i s) = (callbacks s)[i := st]"
    and disk: "on_disk (complete wxt fs i s) = d"
    using complete_fields(1,2) [OF i, of wxt s] adv by simp_all
  show "files (on_disk (complete wxt fs i s)) (target (fs ! j)) = Some (text (fs ! j))"
  proof (cases "j = i")
    case True
    then have "st = Fulfilled"
      using ful cb i len by simp
    then have "files d (target (fs ! i)) = Some (text (fs ! i)) \<or> callbacks s ! i = Fulfilled"
      using advance_disk(3) [OF adv] by simp
    moreover have "files d (target (fs ! i)) = Some (text (fs ! i))"
      if "callbacks s ! i = Fulfilled"
      using that adv inv i by simp
    ultimately show ?thesis
      using True disk by auto
  next
    case False
    then have before: "callbacks s ! j = Fulfilled"
      using ful cb by simp
    have "target (fs ! j) \<noteq> target (fs ! i)"
      using dist False i j by (simp add: distinct_conv_nth)
    then have "files d (target (fs ! j)) = files (on_disk s) (target (fs ! j))"
      using advance_disk(2) [OF adv] by auto
    then show ?thesis
      using inv j before disk by simp
  qed
qed

lemma complete_rejection:
  assumes len: "length (callbacks s) = length fs"
      and inv: "\<forall>j<length fs. \<forall>e. callbacks s ! j = Rejected e \<longrightarrow> rejection s \<noteq> None"
      and i: "i < length fs"
  shows "\<forall>j<length fs. \<forall>e. callbacks (complete wxt fs i s) ! j = Rejected e
           \<longrightarrow> rejection (complete wxt fs i s) \<noteq> None"
proof (intro allI impI)
  fix j e
  assume j: "j < length fs" and rej: "callbacks (complete wxt fs i s) ! j = Rejected e"
  show "rejection (complete wxt fs i s) \<noteq> None"
  proof (cases "j = i")
    case True
    then have "fst (advance wxt (fs ! i) (callbacks s ! i) (on_disk s)) = Rejected e"
      using rej i len by (simp add: complete_fields(1))
    then show ?thesis
      by (simp add: complete_fields(3) [OF i] split: option.splits)
  next
    case False
    then have "callbacks s ! j = Rejected e"
      using rej i by (simp add: complete_fields(1))
    then have "rejection s \<noteq> None"
      using inv j by blast
    then show ?thesis
      by (auto simp: complete_fields(3) [OF i] split: option.splits)
  qed
qed

lemma advance_settled:
  "st \<noteq> AwaitEnsureDir \<Longrightarrow> st \<noteq> AwaitWrite \<Longrightarrow> advance wxt f st d = (st, d)"
  by (cases st) simp_all

lemma advance_twice:
  assumes "advance wxt f st d = (st1, d1)" and "advance wxt f st1 d1 = (st2, d2)"
  shows "st2 \<noteq> AwaitEnsureDir \<and> st2 \<noteq> AwaitWrite"
  using assms by (cases st; cases st1) (auto split: sum.splits)

lemma complete_settled:
  assumes len: "length (callbacks s) = length fs" and j: "j < length fs"
      and "callbacks s ! j \<noteq> AwaitEnsureDir" and "callbacks s ! j \<noteq> AwaitWrite"
  shows "callbacks (complete wxt fs i s) ! j \<noteq> AwaitEnsureDir
       \<and> callbacks (complete wxt fs i s) ! j \<noteq> AwaitWrite"
proof (cases "i < length fs")
  case True
  show ?thesis
  proof (cases "j = i")
    case same: True
    then show ?thesis
      using assms True advance_settled [of "callbacks s ! i" wxt "fs ! i" "on_disk s"]
      by (simp add: complete_fields(1))
  next
    case False
    then show ?thesis
      using assms True by (simp add: complete_fields(1))
  qed
next
  case False
  then show ?thesis
    using assms by (simp add: complete_idle)
qed

lemma complete_twice:
  assumes len: "length (callbacks s) = length fs" and i: "i < length fs"
  shows "callbacks (complete wxt fs i (complete wxt fs i s)) ! i \<noteq> AwaitEnsureDir
       \<and> callbacks (complete wxt fs i (complete wxt fs i s)) ! i \<noteq> AwaitWrite"
proof -
  let ?s1 = "complete wxt fs i s"
  obtain st1 d1 where a1: "advance wxt (fs ! i) (callbacks s ! i) (on_disk s) = (st1, d1)"
    by (cases "advance wxt (fs ! i) (callbacks s ! i) (on_disk s)")
  obtain st2 d2 where a2: "advance wxt (fs ! i) st1 d1 = (st2, d2)"
    by (cases "advance wxt (fs ! i) st1 d1")
  have "callbacks ?s1 ! i = st1" "on_disk ?s1 = d1" "length (callbacks ?s1) = length fs"
    using a1 i len by (simp_all add: complete_fields)
  then have "callbacks (complete wxt fs i ?s1) ! i = st2"
    using a2 i by (simp add: complete_fields)
  then show ?thesis
    using advance_twice [OF a1 a2] by simp
qed

lemma fold_complete_length:
  "length (callbacks s) = length fs
   \<Longrightarrow> length (callbacks (fold (complete wxt fs) steps s)) = length fs"
  by (rule fold_complete_invariant) (simp_all add: complete_length)

lemma drain_settles:
  assumes len: "length (callbacks s) = length fs"
  shows "m \<le> length fs \<Longrightarrow> j < m
    \<Longrightarrow> callbacks (fold (complete wxt fs) (steps @ concat (map (\<lambda>i. [i, i]) [0..<m])) s) ! j
          \<noteq> AwaitEnsureDir
      \<and> callbacks (fold (complete wxt fs) (steps @ concat (map (\<lambda>i. [i, i]) [0..<m])) s) ! j
          \<noteq> AwaitWrite"
proof (induction m)
  case 0
  then show ?case by simp
next
  case (Suc m)
  let ?s1 = "fold (complete wxt fs) (steps @ concat (map (\<lambda>i. [i, i]) [0..<m])) s"
  let ?s2 = "complete wxt fs m ?s1"
  have run: "fold (complete wxt fs) (steps @ concat (map (\<lambda>i. [i, i]) [0..<Suc m])) s
      = complete wxt fs m ?s2"
    by simp
  have l1: "length (callbacks ?s1) = length fs"
    using len by (rule fold_complete_length)
  then have l2: "length (callbacks ?s2) = length fs"
    by (rule complete_length)
  have m: "m < length fs" and j: "j < length fs"
    using Suc.prems by simp_all
  show ?case
  proof (cases "j = m")
    case True
    then show ?thesis
      unfolding run using complete_twice [OF l1 m] by simp
  next
    case False
    then have "callbacks ?s1 ! j \<noteq> AwaitEnsureDir \<and> callbacks ?s1 ! j \<noteq> AwaitWrite"
      using Suc by simp
    then have "callbacks ?s2 ! j \<noteq> AwaitEnsureDir \<and> callbacks ?s2 ! j \<noteq> AwaitWrite"
      using complete_settled [OF l1 j] by blast
    then show ?thesis
      unfolding run using complete_settled [OF l2 j] by blast
  qed
qed

lemma writeAll_fields:
  "fst (writeAll wxt fs schedule d)
     = (case rejection (fold (complete wxt fs)
                          (schedule @ concat (map (\<lambda>i. [i, i]) [0..<length fs]))
                          \<lparr>callbacks = replicate (length fs) AwaitEnsureDir, rejection = None,
                           on_disk = d\<rparr>) of
          Some e \<Rightarrow> Inl e | None \<Rightarrow> Inr ())"
  "snd (writeAll wxt fs schedule d)
     = on_disk (fold (complete wxt fs)
                  (schedule @ concat (map (\<lambda>i. [i, i]) [0..<length fs]))
                  \<lparr>callbacks = replicate (length fs) AwaitEnsureDir, rejection = None,
                   on_disk = d\<rparr>)"
  by (simp_all add: writeAll_def Let_def)

text \<open>
  A write phase that resolves has written every entry: when the entries go to distinct
  files, each file holds the text of its entry, whatever the schedule.
\<close>

lemma writeAll_Inr:
  assumes ok: "fst (writeAll wxt fs schedule d) = Inr u"
      and dist: "distinct (map target fs)" and f: "f \<in> set fs"
  shows "files (snd (writeAll wxt fs schedule d)) (target f) = Some (text f)"
proof -
  let ?steps = "schedule @ concat (map (\<lambda>i. [i, i]) [0..<length fs])"
  let ?start = "\<lparr>callbacks = replicate (length fs) AwaitEnsureDir, rejection = None,
                 on_disk = d\<rparr>"
  let ?end = "fold (complete wxt fs) ?steps ?start"
  let ?P = "\<lambda>s :: promises. length (callbacks s) = length fs
      \<and> (\<forall>j<length fs. callbacks s ! j = Fulfilled
            \<longrightarrow> files (on_disk s) (target (fs ! j)) = Some (text (fs ! j)))
      \<and> (\<forall>j<length fs. \<forall>e. callbacks s ! j = Rejected e \<longrightarrow> rejection s \<noteq> None)"
  have "?P ?end"
  proof (rule fold_complete_invariant [where P = ?P])
    show "?P ?start" by simp
  next
    fix i s
    assume "i < length fs" and "?P s"
    then show "?P (complete wxt fs i s)"
      using complete_length [of s fs wxt i] complete_written [OF dist, of s i wxt]
        complete_rejection [of s fs i wxt]
      by blast
  qed
  then have written: "\<forall>j<length fs. callbacks ?end ! j = Fulfilled
            \<longrightarrow> files (on_disk ?end) (target (fs ! j)) = Some (text (fs ! j))"
    and rejected: "\<forall>j<length fs. \<forall>e. callbacks ?end ! j = Rejected e \<longrightarrow> rejection ?end \<noteq> None"
    by blast+
  from f obtain j where j: "j < length fs" and fj: "fs ! j = f"
    by (auto simp: in_set_conv_nth)
  have none: "rejection ?end = None"
    using ok by (simp add: writeAll_fields split: option.splits)
  have "callbacks ?end ! j \<noteq> AwaitEnsureDir \<and> callbacks ?end ! j \<noteq> AwaitWrite"
    by (rule drain_settles [OF _ _ j]) simp_all
  moreover have "callbacks ?end ! j \<noteq> Rejected e" for e
    using rejected j none by blast
  ultimately have "callbacks ?end ! j = Fulfilled"
    by (cases "callbacks ?end ! j") simp_all
  then have "files (on_disk ?end) (target f) = Some (text f)"
    using written j fj by blast
  then show ?thesis
    by (simp add: writeAll_fields)
qed

lemma prefix_butlast: "prefix a (butlast y) \<Longrightarrow> y \<noteq> [] \<Longrightarrow> strict_prefix a y"
proof -
  assume a: "prefix a (butlast y)" and y: "y \<noteq> []"
  have "strict_prefix (butlast y) (butlast y @ [last y])"
    by (simp add: strict_prefix_def)
  then have "strict_prefix (butlast y) y"
    using y by simp
  with a show ?thesis
    using prefix_order.le_less_trans by blast
qed

lemma writable_ensureDir:
  assumes w: "writable wxt fs d" and f: "f \<in> set fs"
  shows "fs_ensureDir (dirname wxt (path f)) d
           = Inr (d\<lparr>dirs := dirs d \<union> set (prefixes (butlast (target f)))\<rparr>)"
    and "writable wxt fs (d\<lparr>dirs := dirs d \<union> set (prefixes (butlast (target f)))\<rparr>)"
proof -
  have dir: "fs_path (dirname wxt (path f)) = butlast (target f)"
    and free: "\<forall>a\<in>set (prefixes (butlast (target f))). files d a = None"
    using w f by (auto simp: writable_def)
  show "fs_ensureDir (dirname wxt (path f)) d
           = Inr (d\<lparr>dirs := dirs d \<union> set (prefixes (butlast (target f)))\<rparr>)"
    using free by (simp add: fs_ensureDir_def dir)
  have "target g \<notin> set (prefixes (butlast (target f)))" if "g \<in> set fs" for g
  proof
    assume "target g \<in> set (prefixes (butlast (target f)))"
    then have "prefix (target g) (butlast (target f))"
      by simp
    moreover have "target f \<noteq> []"
      using w f by (auto simp: writable_def)
    ultimately have "strict_prefix (target g) (target f)"
      by (rule prefix_butlast)
    then show False
      using w f that by (auto simp: writable_def)
  qed
  then show "writable wxt fs (d\<lparr>dirs := dirs d \<union> set (prefixes (butlast (target f)))\<rparr>)"
    using w unfolding writable_def by auto
qed

lemma writable_write:
  assumes w: "writable wxt fs d" and f: "f \<in> set fs"
      and parent: "fs_isDirectory (butlast (target f)) d"
  shows "\<exists>d'. writeFileIfDifferent (path f) (text f) d = Inr d' \<and> writable wxt fs d'
           \<and> dirs d' = dirs d"
proof (cases "files d (target f) = Some (text f)")
  case True
  then show ?thesis
    using w by (simp add: writeFileIfDifferent_def target_def)
next
  case False
  let ?d = "d\<lparr>files := (files d)(target f \<mapsto> text f)\<rparr>"
  have "\<not> fs_isDirectory (target f) d"
    using w f by (auto simp: writable_def fs_isDirectory_def)
  then have run: "writeFileIfDifferent (path f) (text f) d = Inr ?d"
    using False parent by (simp add: writeFileIfDifferent_def fs_writeFile_def target_def)
  have "a \<noteq> target f" if "g \<in> set fs" and "a \<in> set (prefixes (butlast (target g)))" for g a
  proof
    assume "a = target f"
    then have "prefix (target f) (butlast (target g))"
      using that by simp
    moreover have "target g \<noteq> []"
      using w that by (auto simp: writable_def)
    ultimately have "strict_prefix (target f) (target g)"
      by (rule prefix_butlast)
    then show False
      using w f that by (auto simp: writable_def)
  qed
  then have "writable wxt fs ?d"
    using w unfolding writable_def by auto
  then show ?thesis
    using run by simp
qed

lemma complete_writable:
  fixes s :: promises
  assumes len: "length (callbacks s) = length fs"
      and none: "rejection s = None"
      and unrejected: "\<forall>j<length fs. \<forall>e. callbacks s ! j \<noteq> Rejected e"
      and w: "writable wxt fs (on_disk s)"
      and ensured: "\<forall>j<length fs. callbacks s ! j = AwaitWrite
                      \<longrightarrow> fs_isDirectory (butlast (target (fs ! j))) (on_disk s)"
      and i: "i < length fs"
  shows "length (callbacks (complete wxt fs i s)) = length fs
       \<and> rejection (complete wxt fs i s) = None
       \<and> (\<forall>j<length fs. \<forall>e. callbacks (complete wxt fs i s) ! j \<noteq> Rejected e)
       \<and> writable wxt fs (on_disk (complete wxt fs i s))
       \<and> (\<forall>j<length fs. callbacks (complete wxt fs i s) ! j = AwaitWrite
            \<longrightarrow> fs_isDirectory (butlast (target (fs ! j))) (on_disk (complete wxt fs i s)))"
proof -
  let ?f = "fs ! i"
  have f: "?f \<in> set fs"
    using i by simp
  have "\<exists>st d'. advance wxt ?f (callbacks s ! i) (on_disk s) = (st, d')
      \<and> (\<forall>e. st \<noteq> Rejected e) \<and> writable wxt fs d' \<and> dirs (on_disk s) \<subseteq> dirs d'
      \<and> (st = AwaitWrite \<longrightarrow> fs_isDirectory (butlast (target ?f)) d')"
  proof (cases "callbacks s ! i")
    case AwaitEnsureDir
    show ?thesis
      using writable_ensureDir [OF w f] by (simp add: AwaitEnsureDir fs_isDirectory_def)
  next
    case AwaitWrite
    then have "fs_isDirectory (butlast (target ?f)) (on_disk s)"
      using ensured i by blast
    from writable_write [OF w f this] show ?thesis
      by (auto simp: AwaitWrite)
  next
    case Fulfilled
    then show ?thesis
      using w by simp
  next
    case (Rejected e)
    then show ?thesis
      using unrejected i by blast
  qed
  then obtain st d' where adv: "advance wxt ?f (callbacks s ! i) (on_disk s) = (st, d')"
    and st: "\<forall>e. st \<noteq> Rejected e" and w': "writable wxt fs d'"
    and grow: "dirs (on_disk s) \<subseteq> dirs d'"
    and dir: "st = AwaitWrite \<longrightarrow> fs_isDirectory (butlast (target ?f)) d'"
    by blast
  have cb: "callbacks (complete wxt fs i s) = (callbacks s)[i := st]"
    and disk: "on_disk (complete wxt fs i s) = d'"
    and rej: "rejection (complete wxt fs i s) = None"
    using complete_fields [OF i, of wxt s] adv none st by (simp_all split: stage.splits)
  have "callbacks (complete wxt fs i s) ! j \<noteq> Rejected e" if "j < length fs" for j e
    using that unrejected st len cb by (cases "j = i") simp_all
  moreover have "fs_isDirectory (butlast (target (fs ! j))) (on_disk (complete wxt fs i s))"
    if "j < length fs" and "callbacks (complete wxt fs i s) ! j = AwaitWrite" for j
  proof (cases "j = i")
    case True
    then show ?thesis
      using that dir len cb disk by simp
  next
    case False
    then have "fs_isDirectory (butlast (target (fs ! j))) (on_disk s)"
      using that ensured cb by simp
    then show ?thesis
      using grow disk by (auto simp: fs_isDirectory_def)
  qed
  ultimately show ?thesis
    using len cb disk rej w' by simp
qed

text \<open>On a writable disk the write phase resolves, whatever the schedule.\<close>

lemma writeAll_succeeds:
  assumes "writable wxt fs d"
  shows "fst (writeAll wxt fs schedule d) = Inr ()"
proof -
  let ?steps = "schedule @ concat (map (\<lambda>i. [i, i]) [0..<length fs])"
  let ?start = "\<lparr>callbacks = replicate (length fs) AwaitEnsureDir, rejection = None,
                 on_disk = d\<rparr>"
  let ?P = "\<lambda>s :: promises. length (callbacks s) = length fs
       \<and> rejection s = None
       \<and> (\<forall>j<length fs. \<forall>e. callbacks s ! j \<noteq> Rejected e)
       \<and> writable wxt fs (on_disk s)
       \<and> (\<forall>j<length fs. callbacks s ! j = AwaitWrite
            \<longrightarrow> fs_isDirectory (butlast (target (fs ! j))) (on_disk s))"
  have "?P (fold (complete wxt fs) ?steps ?start)"
  proof (rule fold_complete_invariant [where P = ?P])
    show "?P ?start"
      using assms by simp
  next
    fix i s
    assume "i < length fs" and "?P s"
    then show "?P (complete wxt fs i s)"
      using complete_writable [of s fs wxt i] by blast
  qed
  then show ?thesis
    by (simp add: writeAll_fields)
qed

lemma defaultLocaleMessages_cong:
  assumes "files a (fs_path (defaultLocalePath wxt)) = files b (fs_path (defaultLocalePath wxt))"
      and "fs_path (defaultLocalePath wxt) \<in> dirs a \<longleftrightarrow> fs_path (defaultLocalePath wxt) \<in> dirs b"
  shows "defaultLocaleMessages wxt a = defaultLocaleMessages wxt b"
  using assms
  by (simp add: defaultLocaleMessages_def fs_exists_def fs_readFile_def fs_isDirectory_def)

lemma collectEntries_cong:
  assumes "files a (fs_path (defaultLocalePath wxt)) = files b (fs_path (defaultLocalePath wxt))"
      and "fs_path (defaultLocalePath wxt) \<in> dirs a \<longleftrightarrow> fs_path (defaultLocalePath wxt) \<in> dirs b"
  shows "collectEntries wxt eps a = collectEntries wxt eps b"
proof -
  have "getI18nDeclarationEntry wxt a = getI18nDeclarationEntry wxt b"
    unfolding getI18nDeclarationEntry_def defaultLocaleMessages_cong [OF assms] ..
  then show ?thesis
    unfolding collectEntries_def by (simp cong: sum.case_cong)
qed

lemma generateWxtDir_collect_fails:
  assumes "fs_ensureDir (typesDir (config wxt)) d = Inr d1"
      and "collectEntries wxt eps d1 = Inl x"
  shows "generateWxtDir wxt eps schedule d = (Inl x, d1)" and "files d1 = files d"
  using assms fs_ensureDir_Inr [OF assms(1)] by (simp_all add: generateWxtDir_def)

lemma generateWxtDir_write_phase:
  assumes "fs_ensureDir (typesDir (config wxt)) d = Inr d1"
      and "collectEntries wxt eps d1 = Inr entries"
  shows "generateWxtDir wxt eps schedule d
           = writeAll wxt (absoluteFileEntries wxt entries) schedule d1"
  using assms by (simp add: generateWxtDir_def)

lemma malformed_catalog:
  assumes "files d (fs_path (defaultLocalePath wxt)) = Some raw" and "JSON_parse wxt raw = Inl e"
  shows "defaultLocaleMessages wxt d = Inl e"
  using assms by (simp add: defaultLocaleMessages_def fs_exists_def fs_readFile_def)

lemma malformed_collect:
  assumes "files d (fs_path (defaultLocalePath wxt)) = Some raw" and "JSON_parse wxt raw = Inl e"
  shows "\<exists>x. collectEntries wxt eps d = Inl x"
    and "getPathsDeclarationEntry wxt eps = Inr pe \<Longrightarrow> collectEntries wxt eps d = Inl e"
  using malformed_catalog [OF assms]
  by (auto simp: collectEntries_def getI18nDeclarationEntry_def split: sum.splits)

lemma handedToWriter_Inr:
  assumes "handedToWriter wxt eps d = Inr fs"
  obtains d1 where "fs_ensureDir (typesDir (config wxt)) d = Inr d1"
    and "generateWxtDir wxt eps schedule d = writeAll wxt fs schedule d1"
  using assms
  by (auto simp: handedToWriter_def generateWxtDir_def split: sum.splits)

lemma generateWxtDir_Inr:
  assumes "fst (generateWxtDir wxt eps schedule d) = Inr u"
  obtains fs where "handedToWriter wxt eps d = Inr fs"
  using assms
  by (auto simp: handedToWriter_def generateWxtDir_def split: sum.splits)

lemma handedToWriter_cong:
  assumes "files a (fs_path (defaultLocalePath wxt)) = files b (fs_path (defaultLocalePath wxt))"
      and "fs_path (defaultLocalePath wxt) \<in> dirs a \<longleftrightarrow> fs_path (defaultLocalePath wxt) \<in> dirs b"
      and "handedToWriter wxt eps a = Inr fs" and "handedToWriter wxt eps b = Inr gs"
  shows "fs = gs"
proof -
  from assms(3) obtain a1 es where a1: "fs_ensureDir (typesDir (config wxt)) a = Inr a1"
    and es: "collectEntries wxt eps a1 = Inr es" and fs: "fs = absoluteFileEntries wxt es"
    by (auto simp: handedToWriter_def split: sum.splits)
  from assms(4) obtain b1 es' where b1: "fs_ensureDir (typesDir (config wxt)) b = Inr b1"
    and es': "collectEntries wxt eps b1 = Inr es'" and gs: "gs = absoluteFileEntries wxt es'"
    by (auto simp: handedToWriter_def split: sum.splits)
  have "collectEntries wxt eps a1 = collectEntries wxt eps b1"
    using fs_ensureDir_Inr [OF a1] fs_ensureDir_Inr [OF b1] assms(1,2)
    by (intro collectEntries_cong) auto
  with es es' fs gs show ?thesis by simp
qed

lemma pass_succeeds:
  assumes "fs_ensureDir (typesDir (config wxt)) d = Inr d1"
      and "collectEntries wxt eps d1 = Inr entries"
      and "writable wxt (absoluteFileEntries wxt entries) d1"
  shows "fst (generateWxtDir wxt eps schedule d) = Inr ()"
  using generateWxtDir_write_phase [OF assms(1,2)] writeAll_succeeds [OF assms(3)] by simp

lemma writable_paths:
  "map path fs = map path gs \<Longrightarrow> writable wxt fs d = writable wxt gs d"
proof -
  assume "map path fs = map path gs"
  then have "set (map path fs) = set (map path gs)"
    by simp
  then have same: "path ` set fs = path ` set gs"
    by (simp only: set_map)
  have image: "writable wxt xs d
      = ((\<forall>p\<in>path ` set xs. fs_path p \<noteq> [] \<and> fs_path p \<notin> dirs d
             \<and> fs_path (dirname wxt p) = butlast (fs_path p)
             \<and> (\<forall>a\<in>set (prefixes (butlast (fs_path p))). files d a = None))
         \<and> (\<forall>p\<in>path ` set xs. \<forall>q\<in>path ` set xs.
               \<not> strict_prefix (fs_path p) (fs_path q)))" for xs
    by (simp add: writable_def target_def)
  show ?thesis
    unfolding image [of fs] image [of gs] same ..
qed

section \<open>The concrete build context on disk\<close>

lemma generated_keys:
  "fs_path ''/project/.generated/types/paths.d.ts''
     = [''project'', ''.generated'', ''types'', ''paths.d.ts'']"
  "fs_path ''/project/.generated/types/i18n.d.ts''
     = [''project'', ''.generated'', ''types'', ''i18n.d.ts'']"
  "fs_path ''/project/.generated/types/globals.d.ts''
     = [''project'', ''.generated'', ''types'', ''globals.d.ts'']"
  "fs_path ''/project/.generated/tsconfig.json'' = [''project'', ''.generated'', ''tsconfig.json'']"
  "fs_path ''/project/.generated/wxt.d.ts'' = [''project'', ''.generated'', ''wxt.d.ts'']"
  "fs_path ''/project/.generated/types'' = [''project'', ''.generated'', ''types'']"
  "fs_path ''/project/.generated'' = [''project'', ''.generated'']"
  "fs_path ''/project/public/_locales/en/messages.json'' = catalog_path"
  by (simp_all add: fs_path_def segments_def normalize_step_def catalog_path_def)

lemma posix_dirname_generated:
  "posix_dirname ''/project/.generated/types/paths.d.ts'' = ''/project/.generated/types''"
  "posix_dirname ''/project/.generated/types/i18n.d.ts'' = ''/project/.generated/types''"
  "posix_dirname ''/project/.generated/types/globals.d.ts'' = ''/project/.generated/types''"
  "posix_dirname ''/project/.generated/tsconfig.json'' = ''/project/.generated''"
  "posix_dirname ''/project/.generated/wxt.d.ts'' = ''/project/.generated''"
  by (simp_all add: posix_dirname_def segments_def js_startsWith_def)

lemma demo_defaultLocalePath:
  "defaultLocalePath demo_wxt = ''/project/public/_locales/en/messages.json''"
  by (simp add: defaultLocalePath_def demo_defs)

lemma catalog_keys:
  "fs_path (defaultLocalePath demo_wxt) = catalog_path"
  "fs_path (defaultLocalePath module_wxt) = catalog_path"
  "fs_path (defaultLocalePath duplicate_wxt) = catalog_path"
  "fs_path (defaultLocalePath catalog_wxt) = catalog_path"
  "fs_path (defaultLocalePath dollar_key_wxt) = catalog_path"
  "fs_path (defaultLocalePath selfref_wxt) = catalog_path"
  "fs_path (defaultLocalePath flagging_wxt) = catalog_path"
  using demo_defaultLocalePath
  by (simp_all add: defaultLocalePath_def module_wxt_def duplicate_wxt_def catalog_wxt_def
      dollar_key_wxt_def selfref_wxt_def flagging_wxt_def generated_keys)

lemma no_catalog:
  assumes "files d (fs_path (defaultLocalePath wxt)) = None"
      and "fs_path (defaultLocalePath wxt) \<noteq> []"
      and "fs_path (defaultLocalePath wxt) \<notin> dirs d"
  shows "defaultLocaleMessages wxt d = Inr (parseI18nMessages wxt (empty_object wxt))"
  using assms by (simp add: defaultLocaleMessages_def fs_exists_def fs_isDirectory_def)

lemma catalog_read:
  assumes "files d (fs_path (defaultLocalePath wxt)) = Some raw"
  shows "defaultLocaleMessages wxt d
           = (case JSON_parse wxt raw of
                Inl e \<Rightarrow> Inl e
              | Inr content \<Rightarrow> Inr (parseI18nMessages wxt content))"
  using assms by (simp add: defaultLocaleMessages_def fs_exists_def fs_readFile_def)

lemma catalog_path_simps:
  "catalog_path \<noteq> []" "catalog_path \<notin> generated_dirs"
  "files empty_disk k = None" "dirs empty_disk = {}"
  "files stale_disk catalog_path = None" "catalog_path \<notin> dirs stale_disk"
  by (simp_all add: catalog_path_def generated_dirs_def empty_disk_def stale_disk_def)

lemma empty_disk_messages:
  "defaultLocaleMessages demo_wxt empty_disk = Inr []"
  "defaultLocaleMessages module_wxt empty_disk = Inr []"
  "defaultLocaleMessages duplicate_wxt empty_disk = Inr []"
  "defaultLocaleMessages selfref_wxt empty_disk = Inr []"
  "defaultLocaleMessages flagging_wxt empty_disk = Inr []"
  by (simp_all add: no_catalog catalog_keys catalog_path_simps)
     (simp_all add: demo_wxt_def module_wxt_def duplicate_wxt_def selfref_wxt_def
        flagging_wxt_def)

lemma types_ensured:
  "typesDir (config wxt) = ''/project/.generated/types''
   \<Longrightarrow> fs_ensureDir (typesDir (config wxt)) empty_disk
         = Inr \<lparr>files = (\<lambda>k. None), dirs = generated_dirs\<rparr>"
  "typesDir (config wxt) = ''/project/.generated/types''
   \<Longrightarrow> fs_ensureDir (typesDir (config wxt)) stale_disk
         = Inr (stale_disk\<lparr>dirs := generated_dirs\<rparr>)"
  by (auto simp: fs_ensureDir_def generated_keys empty_disk_def stale_disk_def
      generated_dirs_def)

text \<open>A regular file on the way to a directory blocks it, and the pass with it.\<close>

lemma blocked_by_file:
  "fs_ensureDir ''/project/.generated/types'' \<lparr>files = [[''project''] \<mapsto> ''x''], dirs = {}\<rparr>
     = Inl FilesystemError"
  "generateWxtDir demo_wxt eps schedule \<lparr>files = [[''project''] \<mapsto> ''x''], dirs = {}\<rparr>
     = (Inl FilesystemError, \<lparr>files = [[''project''] \<mapsto> ''x''], dirs = {}\<rparr>)"
  by (simp_all add: generateWxtDir_def fs_ensureDir_def generated_keys demo_wxt_def
      demo_config_def)

lemma demo_typesDir:
  "typesDir (config demo_wxt) = ''/project/.generated/types''"
  "typesDir (config duplicate_wxt) = ''/project/.generated/types''"
  "dirname demo_wxt = posix_dirname" "dirname duplicate_wxt = posix_dirname"
  by (simp_all add: demo_wxt_def demo_config_def duplicate_wxt_def)

lemma ensured_messages:
  "defaultLocaleMessages demo_wxt \<lparr>files = (\<lambda>k. None), dirs = generated_dirs\<rparr> = Inr []"
  "defaultLocaleMessages duplicate_wxt \<lparr>files = (\<lambda>k. None), dirs = generated_dirs\<rparr> = Inr []"
  "defaultLocaleMessages demo_wxt (stale_disk\<lparr>dirs := generated_dirs\<rparr>) = Inr []"
  by (simp_all add: no_catalog catalog_keys catalog_path_simps)
     (simp_all add: demo_wxt_def duplicate_wxt_def)

text \<open>
  The pass of the module that reuses the path of the paths declaration: the six file entries
  it hands to the write phase, the first and the fifth for the same file.
\<close>

lemma duplicate_collected:
  "\<exists>entries a b c t e m.
     collectEntries duplicate_wxt [] \<lparr>files = (\<lambda>k. None), dirs = generated_dirs\<rparr> = Inr entries
     \<and> absoluteFileEntries duplicate_wxt entries = [a, b, c, t, e, m]
     \<and> path a = ''/project/.generated/types/paths.d.ts''
     \<and> path b = ''/project/.generated/types/i18n.d.ts''
     \<and> path c = ''/project/.generated/types/globals.d.ts''
     \<and> path t = ''/project/.generated/tsconfig.json''
     \<and> path e = ''/project/.generated/types/paths.d.ts''
     \<and> path m = ''/project/.generated/wxt.d.ts''
     \<and> text a = js_replace paths_template ''{{ union }}'' ''    | never''
     \<and> text e = ''// from a module''"
  unfolding collectEntries_def getI18nDeclarationEntry_def ensured_messages
  by (simp add: duplicate_wxt_def absoluteFileEntries_def pushes_def
      getPathsDeclarationEntry_def publicPathUnions_def entriesBeforeHook_def
      getGlobalsDeclarationEntry_def getTsConfigEntry_def getMainDeclarationEntry_def Let_def
      demo_defs)

lemma demo_collected:
  "\<exists>entries a b c t m.
     collectEntries demo_wxt [(''popup'', True)] \<lparr>files = (\<lambda>k. None), dirs = generated_dirs\<rparr>
       = Inr entries
     \<and> collectEntries demo_wxt [(''popup'', True)] (stale_disk\<lparr>dirs := generated_dirs\<rparr>)
       = Inr entries
     \<and> absoluteFileEntries demo_wxt entries = [a, b, c, t, m]
     \<and> path a = ''/project/.generated/types/paths.d.ts''
     \<and> path b = ''/project/.generated/types/i18n.d.ts''
     \<and> path c = ''/project/.generated/types/globals.d.ts''
     \<and> path t = ''/project/.generated/tsconfig.json''
     \<and> path m = ''/project/.generated/wxt.d.ts''"
  unfolding collectEntries_def getI18nDeclarationEntry_def ensured_messages
  by (simp add: absoluteFileEntries_def
      getPathsDeclarationEntry_def publicPathUnions_def entriesBeforeHook_def
      getGlobalsDeclarationEntry_def getTsConfigEntry_def getMainDeclarationEntry_def Let_def
      demo_defs)

lemma generated_writable:
  assumes "map path fs = [''/project/.generated/types/paths.d.ts'',
                          ''/project/.generated/types/i18n.d.ts'',
                          ''/project/.generated/types/globals.d.ts'',
                          ''/project/.generated/tsconfig.json'',
                          ''/project/.generated/wxt.d.ts'']
         \<or> map path fs = [''/project/.generated/types/paths.d.ts'',
                          ''/project/.generated/types/i18n.d.ts'',
                          ''/project/.generated/types/globals.d.ts'',
                          ''/project/.generated/tsconfig.json'',
                          ''/project/.generated/types/paths.d.ts'',
                          ''/project/.generated/wxt.d.ts'']"
      and "dirname wxt = posix_dirname"
  shows "writable wxt fs \<lparr>files = (\<lambda>k. None), dirs = generated_dirs\<rparr>"
    and "writable wxt fs (stale_disk\<lparr>dirs := generated_dirs\<rparr>)"
proof -
  let ?entry = "\<lambda>p. \<lparr>path = p, text = [], tsReference = None\<rparr>"
  let ?five = "map ?entry [''/project/.generated/types/paths.d.ts'',
                          ''/project/.generated/types/i18n.d.ts'',
                          ''/project/.generated/types/globals.d.ts'',
                          ''/project/.generated/tsconfig.json'',
                          ''/project/.generated/wxt.d.ts'']"
  let ?six = "map ?entry [''/project/.generated/types/paths.d.ts'',
                          ''/project/.generated/types/i18n.d.ts'',
                          ''/project/.generated/types/globals.d.ts'',
                          ''/project/.generated/tsconfig.json'',
                          ''/project/.generated/types/paths.d.ts'',
                          ''/project/.generated/wxt.d.ts'']"
  have five: "writable wxt ?five d" and six: "writable wxt ?six d"
    if "d = \<lparr>files = (\<lambda>k. None), dirs = generated_dirs\<rparr> \<or> d = stale_disk\<lparr>dirs := generated_dirs\<rparr>"
    for d
    using that
    by (auto simp: writable_def target_def assms(2) posix_dirname_generated generated_keys
        generated_dirs_def stale_disk_def strict_prefix_def)
  from assms(1) have "map path fs = map path ?five \<or> map path fs = map path ?six"
    by simp
  then have "writable wxt fs d = writable wxt ?five d \<or> writable wxt fs d = writable wxt ?six d"
    for d
    using writable_paths [of fs ?five wxt d] writable_paths [of fs ?six wxt d] by blast
  then show "writable wxt fs \<lparr>files = (\<lambda>k. None), dirs = generated_dirs\<rparr>"
    and "writable wxt fs (stale_disk\<lparr>dirs := generated_dirs\<rparr>)"
    using five six by blast+
qed

lemma drain6:
  "concat (map (\<lambda>i. [i, i]) [0..<length [a, b, c, t, e, m]])
     = [0, 0, 1, 1, 2, 2, 3, 3, 4, 4, 5, 5]"
  by (simp add: upt_rec [of _ "numeral n" for n] upt_rec [of 0] eval_nat_numeral)

text \<open>
  The two writes to the file of the paths declaration race. Taken callback by callback,
  the fifth entry writes last and its text remains; when the operations of the fifth
  callback complete first, the first entry writes last and its text remains.
\<close>

lemma race:
  fixes a b c t e m :: WxtDirFileEntry
  assumes paths: "path a = ''/project/.generated/types/paths.d.ts''"
      "path b = ''/project/.generated/types/i18n.d.ts''"
      "path c = ''/project/.generated/types/globals.d.ts''"
      "path t = ''/project/.generated/tsconfig.json''"
      "path e = ''/project/.generated/types/paths.d.ts''"
      "path m = ''/project/.generated/wxt.d.ts''"
    and dir: "dirname wxt = posix_dirname"
    and differ: "text a \<noteq> text e"
  shows "files (snd (writeAll wxt [a, b, c, t, e, m] []
                       \<lparr>files = (\<lambda>k. None), dirs = generated_dirs\<rparr>))
           [''project'', ''.generated'', ''types'', ''paths.d.ts''] = Some (text e)"
    and "files (snd (writeAll wxt [a, b, c, t, e, m] [4, 4]
                       \<lparr>files = (\<lambda>k. None), dirs = generated_dirs\<rparr>))
           [''project'', ''.generated'', ''types'', ''paths.d.ts''] = Some (text a)"
  unfolding writeAll_def drain6
  using differ
  by (simp_all add: complete_def fs_ensureDir_def writeFileIfDifferent_def fs_writeFile_def
      fs_isDirectory_def paths dir posix_dirname_generated generated_keys generated_dirs_def)

lemma never_text: "js_replace paths_template ''{{ union }}'' ''    | never'' \<noteq> ''// from a module''"
  by (simp add: js_replace_split [OF split_paths_template] paths_head_def)


section \<open>Failure ahead of the write phase\<close>

text \<open>
  C4. If the default-locale catalog exists and \<^verbatim>\<open>JSON.parse\<close> throws on it, the pass ends
  with an error and the files on disk are those from before the pass, whatever the schedule
  of the write phase would have been: no file entry is written. When the types directory could be ensured and the paths generator succeeded, the
  error is the parser's own. More generally, when collecting the entries (the generators,
  the hook, the composition of the main declaration) fails, the pass returns that error with
  the disk as it was once the types directory was ensured, whose files are unchanged: the
  collection is complete before the first write is issued.
\<close>

theorem C4_failure_writes_nothing:
  "(files d (fs_path (defaultLocalePath wxt)) = Some raw \<and> JSON_parse wxt raw = Inl e
      \<longrightarrow> (\<exists>x. fst (generateWxtDir wxt eps schedule d) = Inl x)
          \<and> files (snd (generateWxtDir wxt eps schedule d)) = files d
          \<and> (\<forall>d1 pe. fs_ensureDir (typesDir (config wxt)) d = Inr d1
                \<and> getPathsDeclarationEntry wxt eps = Inr pe
                \<longrightarrow> generateWxtDir wxt eps schedule d = (Inl e, d1)))
   \<and> (\<forall>d1 x. fs_ensureDir (typesDir (config wxt)) d = Inr d1
          \<and> collectEntries wxt eps d1 = Inl x
          \<longrightarrow> generateWxtDir wxt eps schedule d = (Inl x, d1) \<and> files d1 = files d)"
proof -
  have late: "generateWxtDir wxt eps schedule d = (Inl x, d1) \<and> files d1 = files d"
    if "fs_ensureDir (typesDir (config wxt)) d = Inr d1" and "collectEntries wxt eps d1 = Inl x"
    for d1 x
    using generateWxtDir_collect_fails [OF that] by simp
  have early: "(\<exists>x. fst (generateWxtDir wxt eps schedule d) = Inl x)
      \<and> files (snd (generateWxtDir wxt eps schedule d)) = files d"
    if bad: "files d (fs_path (defaultLocalePath wxt)) = Some raw" "JSON_parse wxt raw = Inl e"
  proof (cases "fs_ensureDir (typesDir (config wxt)) d")
    case (Inl x)
    then show ?thesis
      by (simp add: generateWxtDir_def)
  next
    case (Inr d1)
    have "files d1 = files d"
      using fs_ensureDir_Inr [OF Inr] by simp
    with bad obtain x where "collectEntries wxt eps d1 = Inl x"
      using malformed_collect(1) [of d1 wxt raw e eps] by auto
    then show ?thesis
      using late [OF Inr] by simp
  qed
  have parse: "generateWxtDir wxt eps schedule d = (Inl e, d1)"
    if bad: "files d (fs_path (defaultLocalePath wxt)) = Some raw" "JSON_parse wxt raw = Inl e"
      and ok: "fs_ensureDir (typesDir (config wxt)) d = Inr d1"
        "getPathsDeclarationEntry wxt eps = Inr pe"
    for d1 pe
  proof -
    have "files d1 = files d"
      using fs_ensureDir_Inr [OF ok(1)] by simp
    with bad ok have "collectEntries wxt eps d1 = Inl e"
      using malformed_collect(2) [of d1 wxt raw e eps pe] by simp
    then show ?thesis
      using late [OF ok(1)] by simp
  qed
  show ?thesis
    using late early parse by blast
qed

theorem C4_failure_writes_nothing_witness:
  \<open>files broken_disk (fs_path (defaultLocalePath demo_wxt)) = Some ''{ "greet": ''
   \<and> JSON_parse demo_wxt ''{ "greet": '' = Inl SyntaxError
   \<and> fst (generateWxtDir demo_wxt [(''popup'', True)] [2, 0, 1] broken_disk) = Inl SyntaxError
   \<and> files (snd (generateWxtDir demo_wxt [(''popup'', True)] [2, 0, 1] broken_disk))
       = files broken_disk\<close>
proof -
  have a: "files broken_disk (fs_path (defaultLocalePath demo_wxt)) = Some ''{ \"greet\": ''"
    by (simp add: catalog_keys broken_disk_def)
  have b: "JSON_parse demo_wxt ''{ \"greet\": '' = Inl SyntaxError"
    by (simp add: demo_wxt_def)
  have c: "fs_ensureDir (typesDir (config demo_wxt)) broken_disk
      = Inr (broken_disk\<lparr>dirs := dirs broken_disk \<union> generated_dirs\<rparr>)"
    by (auto simp: fs_ensureDir_def demo_typesDir generated_keys broken_disk_def
        catalog_path_def generated_dirs_def)
  obtain pe where p: "getPathsDeclarationEntry demo_wxt [(''popup'', True)] = Inr pe"
    by (simp add: getPathsDeclarationEntry_def demo_wxt_def Let_def)
  show ?thesis
    using C4_failure_writes_nothing [of broken_disk demo_wxt "''{ \"greet\": ''" SyntaxError
        "[(''popup'', True)]" "[2, 0, 1]"] a b c p
    by simp
qed

section \<open>Entries at the same path\<close>

text \<open>
  C8, as amended. The pass makes no check for entries at the same output path: every file
  entry collected is handed to the write phase, and the write phase does not compare their
  paths. On a disk where the file operations cannot fail, the pass resolves without an
  error under every schedule of its writes, whether or not two file entries go to the same
  file. Which of the texts such a file ends up with is left to the order in which the
  writes complete.
\<close>

theorem C8_no_duplicate_check:
  "fs_ensureDir (typesDir (config wxt)) d = Inr d1
   \<and> collectEntries wxt eps d1 = Inr entries
   \<and> writable wxt (absoluteFileEntries wxt entries) d1
   \<longrightarrow> handedToWriter wxt eps d = Inr (absoluteFileEntries wxt entries)
       \<and> map text (absoluteFileEntries wxt entries) = map text (fileEntries entries)
       \<and> fst (generateWxtDir wxt eps schedule d) = Inr ()"
proof (intro impI)
  assume asm: "fs_ensureDir (typesDir (config wxt)) d = Inr d1
   \<and> collectEntries wxt eps d1 = Inr entries
   \<and> writable wxt (absoluteFileEntries wxt entries) d1"
  then have "handedToWriter wxt eps d = Inr (absoluteFileEntries wxt entries)"
    by (simp add: handedToWriter_def)
  moreover have "map text (absoluteFileEntries wxt entries) = map text (fileEntries entries)"
    by (simp add: absoluteFileEntries_def)
  moreover have "fst (generateWxtDir wxt eps schedule d) = Inr ()"
    using asm pass_succeeds by blast
  ultimately show "handedToWriter wxt eps d = Inr (absoluteFileEntries wxt entries)
       \<and> map text (absoluteFileEntries wxt entries) = map text (fileEntries entries)
       \<and> fst (generateWxtDir wxt eps schedule d) = Inr ()"
    by simp
qed

theorem C8_no_duplicate_check_witness:
  "\<exists>d1 entries.
     fs_ensureDir (typesDir (config duplicate_wxt)) empty_disk = Inr d1
     \<and> collectEntries duplicate_wxt [] d1 = Inr entries
     \<and> writable duplicate_wxt (absoluteFileEntries duplicate_wxt entries) d1
     \<and> \<not> distinct (map path (absoluteFileEntries duplicate_wxt entries))
     \<and> handedToWriter duplicate_wxt [] empty_disk
         = Inr (absoluteFileEntries duplicate_wxt entries)
     \<and> fst (generateWxtDir duplicate_wxt [] [4, 0, 4, 0] empty_disk) = Inr ()"
proof -
  let ?d1 = "\<lparr>files = (\<lambda>k. None), dirs = generated_dirs\<rparr>"
  from duplicate_collected obtain entries a b c t e m where
    entries: "collectEntries duplicate_wxt [] ?d1 = Inr entries"
    and fs: "absoluteFileEntries duplicate_wxt entries = [a, b, c, t, e, m]"
    and paths: "path a = ''/project/.generated/types/paths.d.ts''"
      "path b = ''/project/.generated/types/i18n.d.ts''"
      "path c = ''/project/.generated/types/globals.d.ts''"
      "path t = ''/project/.generated/tsconfig.json''"
      "path e = ''/project/.generated/types/paths.d.ts''"
      "path m = ''/project/.generated/wxt.d.ts''"
    by (elim exE conjE)
  have d1: "fs_ensureDir (typesDir (config duplicate_wxt)) empty_disk = Inr ?d1"
    by (rule types_ensured) (rule demo_typesDir)
  have w: "writable duplicate_wxt (absoluteFileEntries duplicate_wxt entries) ?d1"
    by (rule generated_writable) (simp_all add: fs paths demo_typesDir)
  have twice: "\<not> distinct (map path (absoluteFileEntries duplicate_wxt entries))"
    by (simp add: fs paths)
  have "handedToWriter duplicate_wxt [] empty_disk
         = Inr (absoluteFileEntries duplicate_wxt entries)
     \<and> fst (generateWxtDir duplicate_wxt [] [4, 0, 4, 0] empty_disk) = Inr ()"
    using C8_no_duplicate_check [of duplicate_wxt empty_disk ?d1 "[]" entries "[4, 0, 4, 0]"]
      d1 entries w
    by (simp only: simp_thms)
  then show ?thesis
    using d1 entries w twice by (intro exI [of _ ?d1] exI [of _ entries]) (simp only: simp_thms)
qed

text \<open>
  C8 as stated fails. A module's hook pushes a second file entry at the path of the paths
  declaration: two of the entries handed to the write phase have the same path, and the
  pass returns without an error, both when the callbacks complete one after the other and
  when the operations of the two entries alternate.
\<close>

theorem C8_duplicate_path_counterexample:
  "map_sum id (map path) (handedToWriter duplicate_wxt [] empty_disk)
     = Inr [''/project/.generated/types/paths.d.ts'',
            ''/project/.generated/types/i18n.d.ts'',
            ''/project/.generated/types/globals.d.ts'',
            ''/project/.generated/tsconfig.json'',
            ''/project/.generated/types/paths.d.ts'',
            ''/project/.generated/wxt.d.ts'']
   \<and> fst (generateWxtDir duplicate_wxt [] [] empty_disk) = Inr ()
   \<and> fst (generateWxtDir duplicate_wxt [] [4, 0, 4, 0] empty_disk) = Inr ()"
proof -
  let ?d1 = "\<lparr>files = (\<lambda>k. None), dirs = generated_dirs\<rparr>"
  from duplicate_collected obtain entries a b c t e m where
    entries: "collectEntries duplicate_wxt [] ?d1 = Inr entries"
    and fs: "absoluteFileEntries duplicate_wxt entries = [a, b, c, t, e, m]"
    and paths: "path a = ''/project/.generated/types/paths.d.ts''"
      "path b = ''/project/.generated/types/i18n.d.ts''"
      "path c = ''/project/.generated/types/globals.d.ts''"
      "path t = ''/project/.generated/tsconfig.json''"
      "path e = ''/project/.generated/types/paths.d.ts''"
      "path m = ''/project/.generated/wxt.d.ts''"
    by (elim exE conjE)
  have d1: "fs_ensureDir (typesDir (config duplicate_wxt)) empty_disk = Inr ?d1"
    by (rule types_ensured) (rule demo_typesDir)
  have w: "writable duplicate_wxt (absoluteFileEntries duplicate_wxt entries) ?d1"
    by (rule generated_writable) (simp_all add: fs paths demo_typesDir)
  have "handedToWriter duplicate_wxt [] empty_disk = Inr [a, b, c, t, e, m]"
    by (simp add: handedToWriter_def d1 entries fs)
  then show ?thesis
    by (simp add: paths pass_succeeds [OF d1 entries w])
qed

section \<open>Determinism\<close>

text \<open>
  C9, as amended. Take two passes over the same entrypoints, build context and hook
  contributions, on disks that agree on the default-locale catalog, each with a schedule of
  its own for its writes. They hand the same file entries to the write phase. When these
  entries go to pairwise distinct files and both passes resolve, every generated file holds
  the same content after either pass, namely the text of its entry, whatever the two
  schedules were and whatever the disks held before.
\<close>

theorem C9_deterministic_output:
  "files d1 (fs_path (defaultLocalePath wxt)) = files d2 (fs_path (defaultLocalePath wxt))
   \<and> (fs_path (defaultLocalePath wxt) \<in> dirs d1 \<longleftrightarrow> fs_path (defaultLocalePath wxt) \<in> dirs d2)
   \<and> fst (generateWxtDir wxt eps schedule1 d1) = Inr ()
   \<and> fst (generateWxtDir wxt eps schedule2 d2) = Inr ()
   \<and> handedToWriter wxt eps d1 = Inr fs
   \<and> distinct (map target fs)
   \<longrightarrow> handedToWriter wxt eps d2 = Inr fs
       \<and> (\<forall>f\<in>set fs.
             files (snd (generateWxtDir wxt eps schedule1 d1)) (target f) = Some (text f)
             \<and> files (snd (generateWxtDir wxt eps schedule2 d2)) (target f) = Some (text f))"
proof (intro impI)
  assume asm: "files d1 (fs_path (defaultLocalePath wxt)) = files d2 (fs_path (defaultLocalePath wxt))
   \<and> (fs_path (defaultLocalePath wxt) \<in> dirs d1 \<longleftrightarrow> fs_path (defaultLocalePath wxt) \<in> dirs d2)
   \<and> fst (generateWxtDir wxt eps schedule1 d1) = Inr ()
   \<and> fst (generateWxtDir wxt eps schedule2 d2) = Inr ()
   \<and> handedToWriter wxt eps d1 = Inr fs
   \<and> distinct (map target fs)"
  then have fs: "handedToWriter wxt eps d1 = Inr fs" and dist: "distinct (map target fs)"
    and ok1: "fst (generateWxtDir wxt eps schedule1 d1) = Inr ()"
    and ok2: "fst (generateWxtDir wxt eps schedule2 d2) = Inr ()"
    by simp_all
  obtain gs where gs: "handedToWriter wxt eps d2 = Inr gs"
    using ok2 by (rule generateWxtDir_Inr)
  have same: "gs = fs"
    using handedToWriter_cong [of d1 wxt d2 eps fs gs] asm fs gs by simp
  obtain a where a: "generateWxtDir wxt eps schedule1 d1 = writeAll wxt fs schedule1 a"
    using handedToWriter_Inr [OF fs] by blast
  obtain b where b: "generateWxtDir wxt eps schedule2 d2 = writeAll wxt fs schedule2 b"
    using handedToWriter_Inr [OF gs] same by blast
  have "files (snd (generateWxtDir wxt eps schedule1 d1)) (target f) = Some (text f)
      \<and> files (snd (generateWxtDir wxt eps schedule2 d2)) (target f) = Some (text f)"
    if "f \<in> set fs" for f
    using writeAll_Inr [of wxt fs schedule1 a "()" f] writeAll_Inr [of wxt fs schedule2 b "()" f]
      ok1 ok2 dist that
    unfolding a b by simp
  then show "handedToWriter wxt eps d2 = Inr fs
       \<and> (\<forall>f\<in>set fs.
             files (snd (generateWxtDir wxt eps schedule1 d1)) (target f) = Some (text f)
             \<and> files (snd (generateWxtDir wxt eps schedule2 d2)) (target f) = Some (text f))"
    using gs same by blast
qed

theorem C9_deterministic_output_witness:
  "\<exists>fs. files empty_disk (fs_path (defaultLocalePath demo_wxt))
          = files stale_disk (fs_path (defaultLocalePath demo_wxt))
     \<and> (fs_path (defaultLocalePath demo_wxt) \<in> dirs empty_disk)
          = (fs_path (defaultLocalePath demo_wxt) \<in> dirs stale_disk)
     \<and> fst (generateWxtDir demo_wxt [(''popup'', True)] [] empty_disk) = Inr ()
     \<and> fst (generateWxtDir demo_wxt [(''popup'', True)] [4, 3, 2, 1, 0, 2] stale_disk) = Inr ()
     \<and> handedToWriter demo_wxt [(''popup'', True)] empty_disk = Inr fs
     \<and> distinct (map target fs)
     \<and> files stale_disk [''project'', ''.generated'', ''wxt.d.ts''] = Some ''// stale''
     \<and> files empty_disk [''project'', ''.generated'', ''wxt.d.ts''] = None
     \<and> map target fs = [[''project'', ''.generated'', ''types'', ''paths.d.ts''],
                          [''project'', ''.generated'', ''types'', ''i18n.d.ts''],
                          [''project'', ''.generated'', ''types'', ''globals.d.ts''],
                          [''project'', ''.generated'', ''tsconfig.json''],
                          [''project'', ''.generated'', ''wxt.d.ts'']]
     \<and> map (files (snd (generateWxtDir demo_wxt [(''popup'', True)] [] empty_disk)))
           (map target fs) = map Some (map text fs)
     \<and> map (files (snd (generateWxtDir demo_wxt [(''popup'', True)] [4, 3, 2, 1, 0, 2]
                           stale_disk)))
           (map target fs) = map Some (map text fs)"
proof -
  let ?eps = "[(''popup'', True)]"
  let ?d1 = "\<lparr>files = (\<lambda>k. None), dirs = generated_dirs\<rparr>"
  let ?d2 = "stale_disk\<lparr>dirs := generated_dirs\<rparr>"
  from demo_collected obtain entries a b c t m where
    entries1: "collectEntries demo_wxt ?eps ?d1 = Inr entries"
    and entries2: "collectEntries demo_wxt ?eps ?d2 = Inr entries"
    and fs: "absoluteFileEntries demo_wxt entries = [a, b, c, t, m]"
    and paths: "path a = ''/project/.generated/types/paths.d.ts''"
      "path b = ''/project/.generated/types/i18n.d.ts''"
      "path c = ''/project/.generated/types/globals.d.ts''"
      "path t = ''/project/.generated/tsconfig.json''"
      "path m = ''/project/.generated/wxt.d.ts''"
    by (elim exE conjE)
  have e1: "fs_ensureDir (typesDir (config demo_wxt)) empty_disk = Inr ?d1"
    and e2: "fs_ensureDir (typesDir (config demo_wxt)) stale_disk = Inr ?d2"
    by (rule types_ensured, rule demo_typesDir)+
  have w1: "writable demo_wxt (absoluteFileEntries demo_wxt entries) ?d1"
    and w2: "writable demo_wxt (absoluteFileEntries demo_wxt entries) ?d2"
    by (rule generated_writable, simp add: fs paths, rule demo_typesDir)+
  have ok1: "fst (generateWxtDir demo_wxt ?eps [] empty_disk) = Inr ()"
    by (rule pass_succeeds [OF e1 entries1 w1])
  have ok2: "fst (generateWxtDir demo_wxt ?eps [4, 3, 2, 1, 0, 2] stale_disk) = Inr ()"
    by (rule pass_succeeds [OF e2 entries2 w2])
  have handed: "handedToWriter demo_wxt ?eps empty_disk = Inr [a, b, c, t, m]"
    by (simp add: handedToWriter_def e1 entries1 fs)
  have targets: "map target [a, b, c, t, m]
      = [[''project'', ''.generated'', ''types'', ''paths.d.ts''],
         [''project'', ''.generated'', ''types'', ''i18n.d.ts''],
         [''project'', ''.generated'', ''types'', ''globals.d.ts''],
         [''project'', ''.generated'', ''tsconfig.json''],
         [''project'', ''.generated'', ''wxt.d.ts'']]"
    by (simp add: target_def paths generated_keys)
  have dist: "distinct (map target [a, b, c, t, m])"
    unfolding targets by simp
  have catalog: "files empty_disk (fs_path (defaultLocalePath demo_wxt))
          = files stale_disk (fs_path (defaultLocalePath demo_wxt))"
    "(fs_path (defaultLocalePath demo_wxt) \<in> dirs empty_disk)
          = (fs_path (defaultLocalePath demo_wxt) \<in> dirs stale_disk)"
    by (simp_all add: catalog_keys catalog_path_simps)
  have "handedToWriter demo_wxt ?eps stale_disk = Inr [a, b, c, t, m]
    \<and> (\<forall>f\<in>set [a, b, c, t, m].
      files (snd (generateWxtDir demo_wxt ?eps [] empty_disk)) (target f) = Some (text f)
      \<and> files (snd (generateWxtDir demo_wxt ?eps [4, 3, 2, 1, 0, 2] stale_disk)) (target f)
          = Some (text f))"
    by (rule C9_deterministic_output [of empty_disk demo_wxt stale_disk ?eps "[]"
          "[4, 3, 2, 1, 0, 2]" "[a, b, c, t, m]", THEN mp])
       (intro conjI catalog ok1 ok2 handed dist)
  then have "\<forall>f\<in>set [a, b, c, t, m].
      files (snd (generateWxtDir demo_wxt ?eps [] empty_disk)) (target f) = Some (text f)
      \<and> files (snd (generateWxtDir demo_wxt ?eps [4, 3, 2, 1, 0, 2] stale_disk)) (target f)
          = Some (text f)"
    by (rule conjunct2)
  then have same: "map (files (snd (generateWxtDir demo_wxt ?eps [] empty_disk)))
           (map target [a, b, c, t, m]) = map Some (map text [a, b, c, t, m])"
    "map (files (snd (generateWxtDir demo_wxt ?eps [4, 3, 2, 1, 0, 2] stale_disk)))
           (map target [a, b, c, t, m]) = map Some (map text [a, b, c, t, m])"
    by simp_all
  have stale: "files stale_disk [''project'', ''.generated'', ''wxt.d.ts''] = Some ''// stale''"
    "files empty_disk [''project'', ''.generated'', ''wxt.d.ts''] = None"
    by (simp_all add: stale_disk_def empty_disk_def)
  show ?thesis
    using catalog ok1 ok2 handed dist targets same stale
    by (intro exI [of _ "[a, b, c, t, m]"]) (simp only: simp_thms)
qed

text \<open>
  C9 as stated fails. With the module whose hook reuses the path of the paths declaration,
  two passes on the same input and the same disk resolve, and leave different contents in
  the file: the module's text when the callbacks complete one after the other, the text
  of the paths generator when the operations of the module's entry complete first.
\<close>

theorem C9_same_path_counterexample:
  "fst (generateWxtDir duplicate_wxt [] [] empty_disk) = Inr ()
   \<and> fst (generateWxtDir duplicate_wxt [] [4, 4] empty_disk) = Inr ()
   \<and> files (snd (generateWxtDir duplicate_wxt [] [] empty_disk))
        [''project'', ''.generated'', ''types'', ''paths.d.ts'']
       = Some ''// from a module''
   \<and> files (snd (generateWxtDir duplicate_wxt [] [4, 4] empty_disk))
        [''project'', ''.generated'', ''types'', ''paths.d.ts'']
       = Some (js_replace paths_template ''{{ union }}'' ''    | never'')
   \<and> js_replace paths_template ''{{ union }}'' ''    | never'' \<noteq> ''// from a module''"
proof -
  let ?d1 = "\<lparr>files = (\<lambda>k. None), dirs = generated_dirs\<rparr>"
  from duplicate_collected obtain entries a b c t e m where
    entries: "collectEntries duplicate_wxt [] ?d1 = Inr entries"
    and fs: "absoluteFileEntries duplicate_wxt entries = [a, b, c, t, e, m]"
    and paths: "path a = ''/project/.generated/types/paths.d.ts''"
      "path b = ''/project/.generated/types/i18n.d.ts''"
      "path c = ''/project/.generated/types/globals.d.ts''"
      "path t = ''/project/.generated/tsconfig.json''"
      "path e = ''/project/.generated/types/paths.d.ts''"
      "path m = ''/project/.generated/wxt.d.ts''"
    and texts: "text a = js_replace paths_template ''{{ union }}'' ''    | never''"
      "text e = ''// from a module''"
    by (elim exE conjE)
  have d1: "fs_ensureDir (typesDir (config duplicate_wxt)) empty_disk = Inr ?d1"
    by (rule types_ensured) (rule demo_typesDir)
  have w: "writable duplicate_wxt (absoluteFileEntries duplicate_wxt entries) ?d1"
    by (rule generated_writable) (simp_all add: fs paths demo_typesDir)
  have run: "generateWxtDir duplicate_wxt [] schedule empty_disk
      = writeAll duplicate_wxt [a, b, c, t, e, m] schedule ?d1" for schedule
    using generateWxtDir_write_phase [OF d1 entries] fs by simp
  have differ: "text a \<noteq> text e"
    unfolding texts by (rule never_text)
  note left = race [OF paths demo_typesDir(4) differ]
  show ?thesis
    using pass_succeeds [OF d1 entries w] left never_text
    unfolding run texts by simp
qed

section \<open>The marker comment\<close>













section \<open>The union of public paths\<close>

lemma set_js_join: "set (js_join sep xs) \<subseteq> set sep \<union> \<Union> (set ` set xs)"
  by (induction sep xs rule: js_join.induct) auto

lemma js_join_Nil_iff: "(\<forall>x\<in>set xs. x \<noteq> []) \<Longrightarrow> js_join sep xs = [] \<longleftrightarrow> xs = []"
  by (induction sep xs rule: js_join.induct) auto

lemma sort_Nil_iff: "sort xs = [] \<longleftrightarrow> xs = []"
  by (metis length_0_conv length_sort)

lemma publicPathUnions_Nil: "publicPathUnions wxt paths = [] \<longleftrightarrow> paths = []"
proof -
  have "js_join ''\<newline>'' (map (\<lambda>p. ''    | \"/'' @ p @ ''\"'') (sort (map (normalizePath wxt) paths))) = []
      \<longleftrightarrow> map (\<lambda>p. ''    | \"/'' @ p @ ''\"'') (sort (map (normalizePath wxt) paths)) = []"
    by (rule js_join_Nil_iff) auto
  then show ?thesis
    by (simp add: publicPathUnions_def sort_Nil_iff)
qed

lemma publicPathUnions_dollar:
  assumes "\<forall>p\<in>set paths. CHR ''$'' \<notin> set (normalizePath wxt p)"
  shows "CHR ''$'' \<notin> set (publicPathUnions wxt paths)"
proof
  assume "CHR ''$'' \<in> set (publicPathUnions wxt paths)"
  then have "CHR ''$'' \<in> set ''\<newline>'' \<union> \<Union> (set ` set (map (\<lambda>p. ''    | \"/'' @ p @ ''\"'')
      (sort (map (normalizePath wxt) paths))))"
    using set_js_join unfolding publicPathUnions_def by blast
  then show False
    using assms by (auto split: if_splits)
qed

lemma paths_declaration_union:
  assumes "getPublicFiles wxt = Inr publicFiles"
      and "hook_prepare_publicPaths wxt
             (map (\<lambda>entry. getEntrypointBundlePath wxt entry (outDir (config wxt))
                     (if isHtmlEntrypoint wxt entry then ''.html'' else ''.js'')) eps
              @ publicFiles) = Inr paths"
      and "\<forall>p\<in>set paths. CHR ''$'' \<notin> set (normalizePath wxt p)"
  shows "getPathsDeclarationEntry wxt eps
     = Inr \<lparr>path = ''types/paths.d.ts'',
            text = paths_head
              @ (if paths = [] then ''    | never''
                 else js_join ''\<newline>''
                        (map (\<lambda>p. ''    | \"/'' @ p @ ''\"'') (sort (map (normalizePath wxt) paths))))
              @ paths_tail,
            tsReference = Some True\<rparr>"
proof (cases "paths = []")
  case True
  then show ?thesis
    using assms(1,2)
    by (simp add: getPathsDeclarationEntry_def Let_def publicPathUnions_Nil
        js_replace_split [OF split_paths_template] GetSubstitution_plain)
next
  case False
  have "GetSubstitution ''{{ union }}'' paths_head paths_tail (publicPathUnions wxt paths)
      = publicPathUnions wxt paths"
    by (rule GetSubstitution_plain) (rule publicPathUnions_dollar [OF assms(3)])
  then show ?thesis
    using assms(1,2) False
    by (simp add: getPathsDeclarationEntry_def Let_def publicPathUnions_Nil
        js_replace_split [OF split_paths_template])
       (simp add: publicPathUnions_def)
qed

text \<open>
  C2. The union is rendered from the normalized, sorted paths, each member a quoted string
  literal prefixed with \<^verbatim>\<open>/\<close>, and as \<^verbatim>\<open>never\<close> when there is no path: this is
  \<open>paths_declaration_union\<close>, for paths without a dollar sign. The rendered union is put
  into the template by \<^verbatim>\<open>String.prototype.replace\<close>, which expands dollar patterns in it: for
  the public file \<^verbatim>\<open>price$$.png\<close> the declaration has the member \<^verbatim>\<open>"/price$.png"\<close>, which
  is not the path.
\<close>

theorem C2_dollar_pattern_in_path:
  \<open>getPathsDeclarationEntry dollar_wxt []
     = Inr \<lparr>path = ''types/paths.d.ts'',
            text = paths_head @ ''    | "/price$.png"'' @ paths_tail,
            tsReference = Some True\<rparr>
   \<and> getPathsDeclarationEntry dollar_wxt []
     \<noteq> Inr \<lparr>path = ''types/paths.d.ts'',
            text = paths_head @ ''    | "/price$$.png"'' @ paths_tail,
            tsReference = Some True\<rparr>\<close>
  by (simp add: getPathsDeclarationEntry_def dollar_wxt_def demo_wxt_def Let_def
      publicPathUnions_def forward_slashes_def js_replace_split [OF split_paths_template])

section \<open>The overloads of the message lookup\<close>


lemma renderGetMessageOverload_plain:
  \<open>renderGetMessageOverload k None None =
     ''    getMessage(\<newline>      messageName: '' @ k
     @ '',\<newline>      substitutions?: string | string[],\<newline>      options?: GetMessageOptions,\<newline>    ): string;''\<close>
  by (simp add: renderGetMessageOverload_def commentLines_def truthy_def)

lemma renderGetMessageOverload_signature:
  \<open>\<exists>comment. renderGetMessageOverload k d t =
     ''    '' @ comment @ ''getMessage(\<newline>      messageName: '' @ k
     @ '',\<newline>      substitutions?: string | string[],\<newline>      options?: GetMessageOptions,\<newline>    ): string;''\<close>
  by (simp add: renderGetMessageOverload_def Let_def)

lemma i18n_text_plain:
  assumes "defaultLocaleMessages wxt d = Inr ms"
      and "no_dollar_pattern (js_join ''\<newline>'' (overrides ms))"
  shows "getI18nDeclarationEntry wxt d
     = Inr \<lparr>path = ''types/i18n.d.ts'',
            text = i18n_head @ js_join ''\<newline>'' (overrides ms) @ i18n_tail,
            tsReference = Some True\<rparr>"
  using assms
  by (simp add: getI18nDeclarationEntry_def js_replace_split [OF split_i18n_template]
      GetSubstitution_no_pattern)

lemma catalog_messages: "defaultLocaleMessages catalog_wxt catalog_disk = Inr greet_farewell"
proof -
  have key: "files catalog_disk (fs_path (defaultLocalePath catalog_wxt)) = Some greet_farewell_json"
    by (simp add: catalog_keys catalog_disk_def)
  show ?thesis
    unfolding catalog_read [OF key] by (simp add: catalog_wxt_def demo_wxt_def)
qed

lemma greet_farewell_overrides:
  \<open>overrides greet_farewell =
       [''    /**\<newline>     * Greets the user\<newline>     *\<newline>     * "Hello $1"\<newline>     */\<newline>    getMessage(\<newline>      messageName: "greet",\<newline>      substitutions?: string | string[],\<newline>      options?: GetMessageOptions,\<newline>    ): string;'',
        ''    /**\<newline>     * "Bye"\<newline>     */\<newline>    getMessage(\<newline>      messageName: "farewell",\<newline>      substitutions?: string | string[],\<newline>      options?: GetMessageOptions,\<newline>    ): string;'',
        ''    getMessage(\<newline>      messageName: "greet" | "farewell",\<newline>      substitutions?: string | string[],\<newline>      options?: GetMessageOptions,\<newline>    ): string;'']\<close>
  by (simp add: greet_farewell_def overrides_def renderGetMessageOverload_def commentLines_def
      truthy_def js_trimEnd_def js_whitespace_def Let_def)

lemma greet_farewell_plain: "no_dollar_pattern (js_join ''\<newline>'' (overrides greet_farewell))"
  by (simp add: greet_farewell_overrides no_dollar_pattern_def)

text \<open>
  For a catalog of n messages the generator renders n + 1 overloads: the i-th is the
  overload of the i-th message, in catalog order, with the quoted key as the type of its
  first parameter and the comment made of the description and translation; the last is the
  catch-all, without a comment, whose first parameter has the union of all quoted keys as its
  type. Every overload is one \<^verbatim>\<open>getMessage\<close> signature. The text of the i18n declaration
  is the template with the overloads, joined by line breaks, in place of the placeholder;
  when the overloads hold no dollar pattern, they stand in the text as rendered, between the
  two parts of the template. A catalog with the keys \<^verbatim>\<open>greet\<close> and \<^verbatim>\<open>farewell\<close> yields
  exactly 3 overloads, the last over \<^verbatim>\<open>"greet" | "farewell"\<close>.
\<close>

lemma i18n_overloads:
  \<open>length (overrides ms) = length ms + 1
   \<and> (\<forall>i<length ms. overrides ms ! i
          = renderGetMessageOverload (''"'' @ name (ms ! i) @ ''"'') (description (ms ! i))
              (message (ms ! i)))
   \<and> overrides ms ! length ms
       = renderGetMessageOverload (js_join '' | '' (map (\<lambda>m. ''"'' @ name m @ ''"'') ms)) None None
   \<and> (\<forall>k d t. \<exists>comment. renderGetMessageOverload k d t =
         ''    '' @ comment @ ''getMessage(\<newline>      messageName: '' @ k
         @ '',\<newline>      substitutions?: string | string[],\<newline>      options?: GetMessageOptions,\<newline>    ): string;'')
   \<and> (defaultLocaleMessages wxt d = Inr ms
        \<longrightarrow> getI18nDeclarationEntry wxt d
            = Inr \<lparr>path = ''types/i18n.d.ts'',
                   text = js_replace i18n_template ''{{ overrides }}''
                            (js_join ''\<newline>'' (overrides ms)),
                   tsReference = Some True\<rparr>)
   \<and> (defaultLocaleMessages wxt d = Inr ms
        \<and> no_dollar_pattern (js_join ''\<newline>'' (overrides ms))
        \<longrightarrow> getI18nDeclarationEntry wxt d
            = Inr \<lparr>path = ''types/i18n.d.ts'',
                   text = i18n_head @ js_join ''\<newline>'' (overrides ms) @ i18n_tail,
                   tsReference = Some True\<rparr>)
   \<and> (map name ms = [''greet'', ''farewell'']
        \<longrightarrow> length (overrides ms) = 3
          \<and> overrides ms ! 2 =
              ''    getMessage(\<newline>      messageName: "greet" | "farewell",\<newline>      substitutions?: string | string[],\<newline>      options?: GetMessageOptions,\<newline>    ): string;'')\<close>
proof -
  have len: "length (overrides ms) = length ms + 1"
    by (simp add: overrides_def)
  have each: "\<forall>i<length ms. overrides ms ! i
          = renderGetMessageOverload (''\"'' @ name (ms ! i) @ ''\"'') (description (ms ! i))
              (message (ms ! i))"
    by (simp add: overrides_def nth_append)
  have final: "overrides ms ! length ms
       = renderGetMessageOverload (js_join '' | '' (map (\<lambda>m. ''\"'' @ name m @ ''\"'') ms)) None None"
    by (simp add: overrides_def nth_append)
  have entry: "getI18nDeclarationEntry wxt d
            = Inr \<lparr>path = ''types/i18n.d.ts'',
                   text = js_replace i18n_template ''{{ overrides }}''
                            (js_join ''\<newline>'' (overrides ms)),
                   tsReference = Some True\<rparr>" if "defaultLocaleMessages wxt d = Inr ms"
    using that by (simp add: getI18nDeclarationEntry_def)
  have plain: "getI18nDeclarationEntry wxt d
            = Inr \<lparr>path = ''types/i18n.d.ts'',
                   text = i18n_head @ js_join ''\<newline>'' (overrides ms) @ i18n_tail,
                   tsReference = Some True\<rparr>"
    if "defaultLocaleMessages wxt d = Inr ms
        \<and> no_dollar_pattern (js_join ''\<newline>'' (overrides ms))"
    using that i18n_text_plain by blast
  have example: "length (overrides ms) = 3
          \<and> overrides ms ! 2 =
              ''    getMessage(\<newline>      messageName: \"greet\" | \"farewell\",\<newline>      substitutions?: string | string[],\<newline>      options?: GetMessageOptions,\<newline>    ): string;''"
    if names: "map name ms = [''greet'', ''farewell'']"
  proof -
    have two: "length ms = 2"
      using arg_cong [OF names, of length] by simp
    have "map (\<lambda>m. ''\"'' @ name m @ ''\"'') ms = map (\<lambda>n. ''\"'' @ n @ ''\"'') (map name ms)"
      by simp
    then have "js_join '' | '' (map (\<lambda>m. ''\"'' @ name m @ ''\"'') ms) = ''\"greet\" | \"farewell\"''"
      unfolding names by simp
    then show ?thesis
      using final two len by (simp add: renderGetMessageOverload_plain)
  qed
  have signature: \<open>\<forall>k d t. \<exists>comment. renderGetMessageOverload k d t =
         ''    '' @ comment @ ''getMessage(\<newline>      messageName: '' @ k
         @ '',\<newline>      substitutions?: string | string[],\<newline>      options?: GetMessageOptions,\<newline>    ): string;''\<close>
    using renderGetMessageOverload_signature by blast
  show ?thesis
    by (rule conjI [OF len conjI [OF each conjI [OF final conjI [OF signature
      conjI [OF impI [OF entry] conjI [OF impI [OF plain] impI [OF example]]]]]]])
qed


lemma i18n_overloads_catalog:
  \<open>map name greet_farewell = [''greet'', ''farewell'']
   \<and> defaultLocaleMessages catalog_wxt catalog_disk = Inr greet_farewell
   \<and> no_dollar_pattern (js_join ''\<newline>'' (overrides greet_farewell))
   \<and> length (overrides greet_farewell) = 3
   \<and> overrides greet_farewell ! 2 =
       ''    getMessage(\<newline>      messageName: "greet" | "farewell",\<newline>      substitutions?: string | string[],\<newline>      options?: GetMessageOptions,\<newline>    ): string;''
   \<and> getI18nDeclarationEntry catalog_wxt catalog_disk
       = Inr \<lparr>path = ''types/i18n.d.ts'',
              text = i18n_head @ js_join ''\<newline>'' (overrides greet_farewell) @ i18n_tail,
              tsReference = Some True\<rparr>\<close>
proof -
  have names: "map name greet_farewell = [''greet'', ''farewell'']"
    by (simp add: greet_farewell_def)
  note all = i18n_overloads [of greet_farewell catalog_wxt catalog_disk]
  note rest = all [THEN conjunct2, THEN conjunct2, THEN conjunct2, THEN conjunct2,
    THEN conjunct2]
  note three = rest [THEN conjunct2, THEN mp, OF names]
  note entry = rest [THEN conjunct1, THEN mp, OF conjI [OF catalog_messages greet_farewell_plain]]
  show ?thesis
    by (intro conjI names catalog_messages greet_farewell_plain three [THEN conjunct1]
        three [THEN conjunct2] entry)
qed

text \<open>
  C3. The overloads are rendered as the claim says (\<open>i18n_overloads\<close>), and they are put
  into the template by \<^verbatim>\<open>String.prototype.replace\<close>, which expands dollar patterns in them.
  For a catalog whose one key is \<^verbatim>\<open>price$$\<close>, the rendered overloads have the key
  \<^verbatim>\<open>"price$$"\<close>, and the declaration has \<^verbatim>\<open>"price$"\<close> as the type of the first parameter
  of both the overload of the key and the catch-all: not the union of the keys.
\<close>

theorem C3_dollar_pattern_in_key:
  \<open>defaultLocaleMessages dollar_key_wxt dollar_key_disk = Inr dollar_key_messages
   \<and> map name dollar_key_messages = [''price$$'']
   \<and> overrides dollar_key_messages =
       [''    /**\<newline>     * "Price"\<newline>     */\<newline>    getMessage(\<newline>      messageName: "price$$",\<newline>      substitutions?: string | string[],\<newline>      options?: GetMessageOptions,\<newline>    ): string;'',
        ''    getMessage(\<newline>      messageName: "price$$",\<newline>      substitutions?: string | string[],\<newline>      options?: GetMessageOptions,\<newline>    ): string;'']
   \<and> getI18nDeclarationEntry dollar_key_wxt dollar_key_disk
       = Inr \<lparr>path = ''types/i18n.d.ts'',
              text = i18n_head
                @ ''    /**\<newline>     * "Price"\<newline>     */\<newline>    getMessage(\<newline>      messageName: "price$",\<newline>      substitutions?: string | string[],\<newline>      options?: GetMessageOptions,\<newline>    ): string;\<newline>    getMessage(\<newline>      messageName: "price$",\<newline>      substitutions?: string | string[],\<newline>      options?: GetMessageOptions,\<newline>    ): string;''
                @ i18n_tail,
              tsReference = Some True\<rparr>\<close>
proof -
  have key: "files dollar_key_disk (fs_path (defaultLocalePath dollar_key_wxt)) = Some dollar_key_json"
    by (simp add: catalog_keys dollar_key_disk_def)
  have messages:
    "defaultLocaleMessages dollar_key_wxt dollar_key_disk = Inr dollar_key_messages"
    unfolding catalog_read [OF key] by (simp add: dollar_key_wxt_def demo_wxt_def)
  have rendered: \<open>overrides dollar_key_messages =
       [''    /**\<newline>     * "Price"\<newline>     */\<newline>    getMessage(\<newline>      messageName: "price$$",\<newline>      substitutions?: string | string[],\<newline>      options?: GetMessageOptions,\<newline>    ): string;'',
        ''    getMessage(\<newline>      messageName: "price$$",\<newline>      substitutions?: string | string[],\<newline>      options?: GetMessageOptions,\<newline>    ): string;'']\<close>
    by (simp add: dollar_key_messages_def overrides_def renderGetMessageOverload_def
        commentLines_def truthy_def js_trimEnd_def js_whitespace_def Let_def)
  have entry: \<open>getI18nDeclarationEntry dollar_key_wxt dollar_key_disk
       = Inr \<lparr>path = ''types/i18n.d.ts'',
              text = i18n_head
                @ ''    /**\<newline>     * "Price"\<newline>     */\<newline>    getMessage(\<newline>      messageName: "price$",\<newline>      substitutions?: string | string[],\<newline>      options?: GetMessageOptions,\<newline>    ): string;\<newline>    getMessage(\<newline>      messageName: "price$",\<newline>      substitutions?: string | string[],\<newline>      options?: GetMessageOptions,\<newline>    ): string;''
                @ i18n_tail,
              tsReference = Some True\<rparr>\<close>
    by (simp add: getI18nDeclarationEntry_def messages rendered
        js_replace_split [OF split_i18n_template])
  show ?thesis
    by (intro conjI messages rendered entry) (simp add: dollar_key_messages_def)
qed

section \<open>The alias paths of the project configuration\<close>









section \<open>The order of the entries\<close>

lemma paths_entry_fields:
  "getPathsDeclarationEntry wxt eps = Inr pe
   \<Longrightarrow> path pe = ''types/paths.d.ts'' \<and> tsReference pe = Some True"
  by (auto simp: getPathsDeclarationEntry_def Let_def split: sum.splits)

lemma i18n_entry_fields:
  "getI18nDeclarationEntry wxt d = Inr ie
   \<Longrightarrow> path ie = ''types/i18n.d.ts'' \<and> tsReference ie = Some True"
  by (auto simp: getI18nDeclarationEntry_def split: sum.splits)

lemma collectEntries_Inr:
  assumes "collectEntries wxt eps d = Inr entries"
  shows "\<exists>pe ie hooked.
           getPathsDeclarationEntry wxt eps = Inr pe \<and> getI18nDeclarationEntry wxt d = Inr ie
           \<and> hook_prepare_types wxt (entriesBeforeHook wxt pe ie) = Inr hooked
           \<and> entries = hooked @ [FileEntry (getMainDeclarationEntry wxt hooked)]"
  using assms by (auto simp: collectEntries_def split: sum.splits)

lemma collectEntries_pushes:
  assumes "getPathsDeclarationEntry wxt eps = Inr pe" and "getI18nDeclarationEntry wxt d = Inr ie"
      and "hook_prepare_types wxt = pushes extra"
  shows "collectEntries wxt eps d
     = Inr (entriesBeforeHook wxt pe ie @ extra
            @ [FileEntry (getMainDeclarationEntry wxt (entriesBeforeHook wxt pe ie @ extra))])"
  using assms by (simp add: collectEntries_def pushes_def)

lemma entriesBeforeHook_list:
  "entriesBeforeHook wxt pe ie =
     [ModuleEntry ''wxt/vite-builder-env'']
     @ map (\<lambda>m. ModuleEntry (module_id m))
           (filter (\<lambda>m. module_type m = ''node_module'') (userModules (config wxt)))
     @ [FileEntry pe, FileEntry ie, FileEntry (getGlobalsDeclarationEntry wxt)]
     @ (if extensionApi (config wxt) = ''chrome'' then [ModuleEntry ''@types/chrome''] else [])
     @ [FileEntry (getTsConfigEntry wxt)]"
  by (simp add: entriesBeforeHook_def)


lemma demo_generators:
  "\<exists>pe ie. getPathsDeclarationEntry demo_wxt eps = Inr pe
     \<and> getI18nDeclarationEntry demo_wxt empty_disk = Inr ie"
  by (simp add: getI18nDeclarationEntry_def empty_disk_messages)
     (simp add: getPathsDeclarationEntry_def demo_wxt_def Let_def)

lemma module_generators:
  "\<exists>pe ie. getPathsDeclarationEntry module_wxt eps = Inr pe
     \<and> getI18nDeclarationEntry module_wxt empty_disk = Inr ie"
  by (simp add: getI18nDeclarationEntry_def empty_disk_messages)
     (simp add: getPathsDeclarationEntry_def demo_wxt_def module_wxt_def Let_def)

lemma demo_hook: "hook_prepare_types demo_wxt = pushes []"
  by (rule ext) (simp add: demo_wxt_def pushes_def)

lemma labels_before_hook:
  "path pe = ''types/paths.d.ts'' \<Longrightarrow> path ie = ''types/i18n.d.ts'' \<Longrightarrow>
   map entryLabel (entriesBeforeHook wxt pe ie) =
     [''wxt/vite-builder-env'']
     @ map module_id (filter (\<lambda>m. module_type m = ''node_module'') (userModules (config wxt)))
     @ [''types/paths.d.ts'', ''types/i18n.d.ts'', ''types/globals.d.ts'']
     @ (if extensionApi (config wxt) = ''chrome'' then [''@types/chrome''] else [])
     @ [''tsconfig.json'']"
  by (simp add: entriesBeforeHook_def getGlobalsDeclarationEntry_def getTsConfigEntry_def
      Let_def comp_def)

lemma labels_pushes:
  assumes "getPathsDeclarationEntry wxt eps = Inr pe" and "getI18nDeclarationEntry wxt d = Inr ie"
      and "hook_prepare_types wxt = pushes extra"
  shows "collectedLabels wxt eps d =
     Inr ([''wxt/vite-builder-env'']
          @ map module_id (filter (\<lambda>m. module_type m = ''node_module'') (userModules (config wxt)))
          @ [''types/paths.d.ts'', ''types/i18n.d.ts'', ''types/globals.d.ts'']
          @ (if extensionApi (config wxt) = ''chrome'' then [''@types/chrome''] else [])
          @ [''tsconfig.json'']
          @ map entryLabel extra @ [''wxt.d.ts''])"
proof -
  have "map entryLabel (entriesBeforeHook wxt pe ie) =
     [''wxt/vite-builder-env'']
     @ map module_id (filter (\<lambda>m. module_type m = ''node_module'') (userModules (config wxt)))
     @ [''types/paths.d.ts'', ''types/i18n.d.ts'', ''types/globals.d.ts'']
     @ (if extensionApi (config wxt) = ''chrome'' then [''@types/chrome''] else [])
     @ [''tsconfig.json'']"
    using paths_entry_fields [OF assms(1)] i18n_entry_fields [OF assms(2)]
    by (intro labels_before_hook) simp_all
  then show ?thesis
    unfolding collectedLabels_def collectEntries_pushes [OF assms]
    by (simp add: getMainDeclarationEntry_def)
qed

text \<open>
  C6, as amended. In every pass the collection handed to the hook is, in this order: the
  hard-coded reference to \<^verbatim>\<open>wxt/vite-builder-env\<close>, one reference per user module of type
  \<^verbatim>\<open>node_module\<close>, the paths, i18n and globals entries, the reference to
  \<^verbatim>\<open>@types/chrome\<close> exactly when the extension API is \<^verbatim>\<open>chrome\<close>, and the project
  configuration entry. The main declaration entry is composed from what the hook returns
  and is always last. When the hook only pushes entries, they follow the project
  configuration entry, in the order pushed, and precede the main declaration.
\<close>

theorem C6_entry_order:
  "(collectEntries wxt eps d = Inr entries \<longrightarrow>
      (\<exists>pe ie hooked.
          getPathsDeclarationEntry wxt eps = Inr pe \<and> getI18nDeclarationEntry wxt d = Inr ie
          \<and> hook_prepare_types wxt
              ([ModuleEntry ''wxt/vite-builder-env'']
               @ map (\<lambda>m. ModuleEntry (module_id m))
                     (filter (\<lambda>m. module_type m = ''node_module'') (userModules (config wxt)))
               @ [FileEntry pe, FileEntry ie, FileEntry (getGlobalsDeclarationEntry wxt)]
               @ (if extensionApi (config wxt) = ''chrome'' then [ModuleEntry ''@types/chrome'']
                  else [])
               @ [FileEntry (getTsConfigEntry wxt)]) = Inr hooked
          \<and> entries = hooked @ [FileEntry (getMainDeclarationEntry wxt hooked)]))
   \<and> (getPathsDeclarationEntry wxt eps = Inr pe \<and> getI18nDeclarationEntry wxt d = Inr ie
        \<and> hook_prepare_types wxt = pushes extra
        \<longrightarrow> path pe = ''types/paths.d.ts'' \<and> path ie = ''types/i18n.d.ts''
          \<and> collectEntries wxt eps d
            = Inr ([ModuleEntry ''wxt/vite-builder-env'']
                   @ map (\<lambda>m. ModuleEntry (module_id m))
                      (filter (\<lambda>m. module_type m = ''node_module'') (userModules (config wxt)))
                   @ [FileEntry pe, FileEntry ie, FileEntry (getGlobalsDeclarationEntry wxt)]
                   @ (if extensionApi (config wxt) = ''chrome''
                      then [ModuleEntry ''@types/chrome''] else [])
                   @ [FileEntry (getTsConfigEntry wxt)]
                   @ extra
                   @ [FileEntry (getMainDeclarationEntry wxt
                        (entriesBeforeHook wxt pe ie @ extra))]))"
proof -
  have one: "\<exists>pe ie hooked.
          getPathsDeclarationEntry wxt eps = Inr pe \<and> getI18nDeclarationEntry wxt d = Inr ie
          \<and> hook_prepare_types wxt
              ([ModuleEntry ''wxt/vite-builder-env'']
               @ map (\<lambda>m. ModuleEntry (module_id m))
                     (filter (\<lambda>m. module_type m = ''node_module'') (userModules (config wxt)))
               @ [FileEntry pe, FileEntry ie, FileEntry (getGlobalsDeclarationEntry wxt)]
               @ (if extensionApi (config wxt) = ''chrome'' then [ModuleEntry ''@types/chrome'']
                  else [])
               @ [FileEntry (getTsConfigEntry wxt)]) = Inr hooked
          \<and> entries = hooked @ [FileEntry (getMainDeclarationEntry wxt hooked)]"
    if "collectEntries wxt eps d = Inr entries"
    using collectEntries_Inr [OF that] unfolding entriesBeforeHook_list .
  have two: "path pe = ''types/paths.d.ts'' \<and> path ie = ''types/i18n.d.ts''
          \<and> collectEntries wxt eps d
            = Inr ([ModuleEntry ''wxt/vite-builder-env'']
                   @ map (\<lambda>m. ModuleEntry (module_id m))
                      (filter (\<lambda>m. module_type m = ''node_module'') (userModules (config wxt)))
                   @ [FileEntry pe, FileEntry ie, FileEntry (getGlobalsDeclarationEntry wxt)]
                   @ (if extensionApi (config wxt) = ''chrome''
                      then [ModuleEntry ''@types/chrome''] else [])
                   @ [FileEntry (getTsConfigEntry wxt)]
                   @ extra
                   @ [FileEntry (getMainDeclarationEntry wxt
                        (entriesBeforeHook wxt pe ie @ extra))])"
    if "getPathsDeclarationEntry wxt eps = Inr pe \<and> getI18nDeclarationEntry wxt d = Inr ie
        \<and> hook_prepare_types wxt = pushes extra"
  proof -
    have "collectEntries wxt eps d
     = Inr (entriesBeforeHook wxt pe ie @ extra
            @ [FileEntry (getMainDeclarationEntry wxt (entriesBeforeHook wxt pe ie @ extra))])"
      using that by (intro collectEntries_pushes) simp_all
    then show ?thesis
      using that paths_entry_fields [of wxt eps pe] i18n_entry_fields [of wxt d ie]
      by (simp add: entriesBeforeHook_list [symmetric] del: append_assoc)
         (simp add: entriesBeforeHook_list)
  qed
  show ?thesis
    by (rule conjI [OF impI [OF one] impI [OF two]])
qed

theorem C6_entry_order_witness:
  "\<exists>pe ie. getPathsDeclarationEntry module_wxt [] = Inr pe
     \<and> getI18nDeclarationEntry module_wxt empty_disk = Inr ie
     \<and> hook_prepare_types module_wxt
         = pushes [ModuleEntry ''@wxt-dev/i18n'',
                   FileEntry \<lparr>path = ''types/icons.d.ts'', text = ''export {}'',
                              tsReference = Some True\<rparr>]
     \<and> collectedLabels module_wxt [] empty_disk
         = Inr [''wxt/vite-builder-env'', ''@wxt-dev/auto-icons'', ''types/paths.d.ts'',
                ''types/i18n.d.ts'', ''types/globals.d.ts'', ''@types/chrome'', ''tsconfig.json'',
                ''@wxt-dev/i18n'', ''types/icons.d.ts'', ''wxt.d.ts'']"
proof -
  let ?extra = "[ModuleEntry ''@wxt-dev/i18n'',
                 FileEntry \<lparr>path = ''types/icons.d.ts'', text = ''export {}'',
                            tsReference = Some True\<rparr>]"
  from module_generators [of "[]"] obtain pe ie where
    pe: "getPathsDeclarationEntry module_wxt [] = Inr pe"
    and ie: "getI18nDeclarationEntry module_wxt empty_disk = Inr ie"
    by (elim exE conjE)
  have hook: "hook_prepare_types module_wxt = pushes ?extra"
    by (simp add: module_wxt_def)
  have "collectEntries module_wxt [] empty_disk
      = Inr ([ModuleEntry ''wxt/vite-builder-env'']
             @ map (\<lambda>m. ModuleEntry (module_id m))
                (filter (\<lambda>m. module_type m = ''node_module'') (userModules (config module_wxt)))
             @ [FileEntry pe, FileEntry ie, FileEntry (getGlobalsDeclarationEntry module_wxt)]
             @ (if extensionApi (config module_wxt) = ''chrome''
                then [ModuleEntry ''@types/chrome''] else [])
             @ [FileEntry (getTsConfigEntry module_wxt)]
             @ ?extra
             @ [FileEntry (getMainDeclarationEntry module_wxt
                  (entriesBeforeHook module_wxt pe ie @ ?extra))])"
    and "path pe = ''types/paths.d.ts''" and "path ie = ''types/i18n.d.ts''"
    using C6_entry_order [of module_wxt "[]" empty_disk _ pe ie ?extra] pe ie hook by simp_all
  then have "collectedLabels module_wxt [] empty_disk
         = Inr [''wxt/vite-builder-env'', ''@wxt-dev/auto-icons'', ''types/paths.d.ts'',
                ''types/i18n.d.ts'', ''types/globals.d.ts'', ''@types/chrome'', ''tsconfig.json'',
                ''@wxt-dev/i18n'', ''types/icons.d.ts'', ''wxt.d.ts'']"
    by (simp add: collectedLabels_def module_wxt_def demo_wxt_def demo_config_def
        getGlobalsDeclarationEntry_def getTsConfigEntry_def getMainDeclarationEntry_def Let_def)
  with pe ie hook show ?thesis
    by (intro exI [of _ pe] exI [of _ ie]) (simp only: simp_thms)
qed

text \<open>
  C6 as stated fails when the extension API is \<^verbatim>\<open>chrome\<close>: the hard-coded reference to
  \<^verbatim>\<open>@types/chrome\<close> follows the paths, i18n and globals entries of the generators.
\<close>

theorem C6_chrome_reference_counterexample:
  "collectedLabels demo_wxt [] empty_disk
     = Inr [''wxt/vite-builder-env'', ''@wxt-dev/auto-icons'', ''types/paths.d.ts'',
            ''types/i18n.d.ts'', ''types/globals.d.ts'', ''@types/chrome'', ''tsconfig.json'',
            ''wxt.d.ts'']"
proof -
  from demo_generators [of "[]"] obtain pe ie where
    "getPathsDeclarationEntry demo_wxt [] = Inr pe"
    "getI18nDeclarationEntry demo_wxt empty_disk = Inr ie"
    by (elim exE conjE)
  from labels_pushes [OF this demo_hook] show ?thesis
    by (simp add: demo_wxt_def demo_config_def)
qed

section \<open>The directives of a pass\<close>

















section \<open>The references of the main declaration\<close>




section \<open>The project configuration and the main declaration\<close>




end
